theory Spec2Isabelle
  imports Main
begin

abbreviation NL :: char where "NL \<equiv> CHR 0x0A"
abbreviation CR :: char where "CR \<equiv> CHR 0x0D"
abbreviation QUOTE :: char where "QUOTE \<equiv> CHR 0x22"
abbreviation COMMA :: char where "COMMA \<equiv> CHR 0x2C"

section \<open>Basic types\<close>

text \<open>
  Go strings and byte slices are sequences of bytes; both are modelled as \<open>string\<close>
  (a list of 8-bit characters). A Go \<open>error\<close> is represented by its message text.
\<close>

type_synonym bytes = string
type_synonym error = string

subsection \<open>Decimal formatting\<close>

definition digit :: "nat \<Rightarrow> char" where
  "digit d = ''0123456789'' ! d"

function digits :: "nat \<Rightarrow> string" where
  "digits n = (if n < 10 then [digit n] else digits (n div 10) @ [digit (n mod 10)])"
  by pat_completeness auto
termination
  by (relation "measure id") auto

declare digits.simps [simp del]

text \<open>\<open>fmt.Sprintf("%d", n)\<close> for a signed integer.\<close>

definition sprint_d :: "int \<Rightarrow> string" where
  "sprint_d n = (if n < 0 then CHR ''-'' # digits (nat (- n)) else digits (nat n))"

text \<open>A non-negative number in decimal, padded with zeros to at least \<open>width\<close> digits.\<close>

definition pad :: "nat \<Rightarrow> nat \<Rightarrow> string" where
  "pad width n = replicate (width - length (digits n)) CHR ''0'' @ digits n"

subsection \<open>Identifiers of the chat protocol: \<open>types.JID\<close>\<close>

text \<open>
  The struct of the client library, its constructor \<open>NewJID\<close> and its \<open>String\<close> method.
  The agent and device numbers are unsigned.
\<close>

record JID =
  User :: string
  RawAgent :: nat
  Device :: nat
  Integrator :: nat
  Server :: string

definition NewJID :: "string \<Rightarrow> string \<Rightarrow> JID" where
  "NewJID user server =
     \<lparr>User = user, RawAgent = 0, Device = 0, Integrator = 0, Server = server\<rparr>"

definition JID_String :: "JID \<Rightarrow> string" where
  "JID_String jid =
     (if RawAgent jid > 0 then
        User jid @ ''.'' @ sprint_d (int (RawAgent jid)) @ '':'' @ sprint_d (int (Device jid))
          @ ''@'' @ Server jid
      else if Device jid > 0 then
        User jid @ '':'' @ sprint_d (int (Device jid)) @ ''@'' @ Server jid
      else if length (User jid) > 0 then User jid @ ''@'' @ Server jid
      else Server jid)"

subsection \<open>Time stamps: \<open>time.Time\<close> and the RFC 3339 layout\<close>

text \<open>
  A \<open>time.Time\<close> is represented by the civil date and time it shows in its own location
  and by the offset of that location from UTC in seconds. \<open>Format_RFC3339\<close> is
  \<open>t.Format(time.RFC3339)\<close>, the layout \<open>2006-01-02T15:04:05Z07:00\<close>.
\<close>

record Time =
  Year :: int
  Month :: nat
  Day :: nat
  Hour :: nat
  Minute :: nat
  Second :: nat
  ZoneOffset :: int

definition Format_RFC3339 :: "Time \<Rightarrow> string" where
  "Format_RFC3339 t =
     (if Year t < 0 then CHR ''-'' # pad 4 (nat (- Year t)) else pad 4 (nat (Year t)))
     @ ''-'' @ pad 2 (Month t) @ ''-'' @ pad 2 (Day t)
     @ ''T'' @ pad 2 (Hour t) @ '':'' @ pad 2 (Minute t) @ '':'' @ pad 2 (Second t)
     @ (if ZoneOffset t = 0 then ''Z''
        else
          (let zone = nat \<bar>ZoneOffset t\<bar> div 60
           in (if ZoneOffset t \<le> - 60 then ''-'' else ''+'')
              @ pad 2 (zone div 60) @ '':'' @ pad 2 (zone mod 60)))"

subsection \<open>Protocol messages\<close>

text \<open>
  The fields of \<open>waProto.Message\<close> that the program reads. A protocol field is a pointer
  and may be absent; the generated getters return the zero value for an absent field and
  for a nil receiver. The fields of a media message that only \<open>client.Download\<close> reads
  (URL, direct path, keys) are represented by one string. The two coordinates of a
  location enter the program only through their \<open>%f\<close> rendering, which is what the
  record holds.
\<close>

record ExtendedTextMessage =
  extended_text :: "string option"

record ImageMessage =
  image_caption :: "string option"
  image_directPath :: string

record VideoMessage =
  video_caption :: "string option"
  video_directPath :: string

record DocumentMessage =
  document_fileName :: "string option"
  document_directPath :: string

record AudioMessage =
  audio_directPath :: string

record ContactMessage =
  contact_displayName :: "string option"

record LocationMessage =
  location_latitude :: string
  location_longitude :: string

record Message =
  conversation_field :: "string option"
  extendedTextMessage_field :: "ExtendedTextMessage option"
  imageMessage_field :: "ImageMessage option"
  videoMessage_field :: "VideoMessage option"
  documentMessage_field :: "DocumentMessage option"
  audioMessage_field :: "AudioMessage option"
  contactMessage_field :: "ContactMessage option"
  locationMessage_field :: "LocationMessage option"

definition string_value :: "string option \<Rightarrow> string" where
  "string_value p = (case p of None \<Rightarrow> '''' | Some s \<Rightarrow> s)"

definition GetConversation :: "Message option \<Rightarrow> string" where
  "GetConversation m = (case m of None \<Rightarrow> '''' | Some x \<Rightarrow> string_value (conversation_field x))"

definition GetExtendedTextMessage :: "Message option \<Rightarrow> ExtendedTextMessage option" where
  "GetExtendedTextMessage m = (case m of None \<Rightarrow> None | Some x \<Rightarrow> extendedTextMessage_field x)"

definition GetImageMessage :: "Message option \<Rightarrow> ImageMessage option" where
  "GetImageMessage m = (case m of None \<Rightarrow> None | Some x \<Rightarrow> imageMessage_field x)"

definition GetVideoMessage :: "Message option \<Rightarrow> VideoMessage option" where
  "GetVideoMessage m = (case m of None \<Rightarrow> None | Some x \<Rightarrow> videoMessage_field x)"

definition GetDocumentMessage :: "Message option \<Rightarrow> DocumentMessage option" where
  "GetDocumentMessage m = (case m of None \<Rightarrow> None | Some x \<Rightarrow> documentMessage_field x)"

definition GetAudioMessage :: "Message option \<Rightarrow> AudioMessage option" where
  "GetAudioMessage m = (case m of None \<Rightarrow> None | Some x \<Rightarrow> audioMessage_field x)"

definition GetContactMessage :: "Message option \<Rightarrow> ContactMessage option" where
  "GetContactMessage m = (case m of None \<Rightarrow> None | Some x \<Rightarrow> contactMessage_field x)"

definition GetLocationMessage :: "Message option \<Rightarrow> LocationMessage option" where
  "GetLocationMessage m = (case m of None \<Rightarrow> None | Some x \<Rightarrow> locationMessage_field x)"

text \<open>An inbound event: \<open>events.Message\<close> with the two fields of its \<open>Info\<close> that are read.\<close>

record MessageEvent =
  Info_Sender :: JID
  Info_Timestamp :: Time
  Message :: "Message option"

text \<open>The message types that \<open>client.Download\<close> is called with.\<close>

datatype downloadable =
  DownloadImage ImageMessage
| DownloadVideo VideoMessage
| DownloadDocument DocumentMessage
| DownloadAudio AudioMessage

datatype client_call =
  CallDownload downloadable
| CallSendMessage JID Message

section \<open>The process state and its environment\<close>

text \<open>
  The files the program owns, the directories it creates, the lines it hands to the
  \<open>log\<close> package and the calls it makes on the protocol client, in order. Output printed
  with \<open>fmt.Println\<close> is not part of the state.
\<close>

record world =
  csv_file :: "string option"
  qrcode_file :: "string option"
  media_files :: "string \<rightharpoonup> bytes"
  dirs :: "string set"
  log_lines :: "string list"
  client_calls :: "client_call list"

text \<open>
  The outcomes of the calls into the protocol client, the operating system, the clock and
  the barcode library during one operation. \<open>None\<close> in an error field means that the
  call succeeds.
\<close>

record env =
  download :: "downloadable \<Rightarrow> error + bytes"
  send_message :: "JID \<Rightarrow> Message \<Rightarrow> error option"
  send_time :: Time
  mkdir_err :: "error option"
  writefile_err :: "error option"
  media_nanos :: int
  open_err :: "error option"
  stat_err :: "error option"
  header_write_err :: "error option"
  record_write_err :: "error option"
  flush_err :: "error option"
  csv_nanos :: int
  create_err :: "error option"
  writestring_err :: "error option"
  qr_new_err :: "string \<Rightarrow> error option"
  png_encode_err :: "error option"

definition logf :: "string \<Rightarrow> world \<Rightarrow> world" where
  "logf line w = w\<lparr>log_lines := log_lines w @ [line]\<rparr>"

section \<open>The delimited format: \<open>encoding/csv\<close> with its default settings\<close>

text \<open>
  The program uses \<open>csv.NewWriter\<close> and \<open>csv.NewReader\<close> unchanged: the separator is a
  comma, \<open>UseCRLF\<close>, \<open>LazyQuotes\<close> and \<open>TrimLeadingSpace\<close> are off, there is no comment
  character and \<open>FieldsPerRecord\<close> starts at 0. The definitions follow the library's
  \<open>Writer.Write\<close>, \<open>Reader.readLine\<close>, \<open>Reader.readRecord\<close> and \<open>Reader.ReadAll\<close>.
\<close>

subsection \<open>Writer\<close>

text \<open>
  The UTF-8 encodings of the code points for which \<open>unicode.IsSpace\<close> holds: U+0009 to
  U+000D, U+0020, U+0085, U+00A0, U+1680, U+2000 to U+200A, U+2028, U+2029, U+202F, U+205F
  and U+3000.
\<close>

definition space_runes :: "string list" where
  "space_runes =
     [[CHR 0x09], [CHR 0x0A], [CHR 0x0B], [CHR 0x0C], [CHR 0x0D], [CHR 0x20],
      [CHR 0xC2, CHR 0x85], [CHR 0xC2, CHR 0xA0], [CHR 0xE1, CHR 0x9A, CHR 0x80],
      [CHR 0xE2, CHR 0x80, CHR 0x80], [CHR 0xE2, CHR 0x80, CHR 0x81],
      [CHR 0xE2, CHR 0x80, CHR 0x82], [CHR 0xE2, CHR 0x80, CHR 0x83],
      [CHR 0xE2, CHR 0x80, CHR 0x84], [CHR 0xE2, CHR 0x80, CHR 0x85],
      [CHR 0xE2, CHR 0x80, CHR 0x86], [CHR 0xE2, CHR 0x80, CHR 0x87],
      [CHR 0xE2, CHR 0x80, CHR 0x88], [CHR 0xE2, CHR 0x80, CHR 0x89],
      [CHR 0xE2, CHR 0x80, CHR 0x8A], [CHR 0xE2, CHR 0x80, CHR 0xA8],
      [CHR 0xE2, CHR 0x80, CHR 0xA9], [CHR 0xE2, CHR 0x80, CHR 0xAF],
      [CHR 0xE2, CHR 0x81, CHR 0x9F], [CHR 0xE3, CHR 0x80, CHR 0x80]]"

text \<open>\<open>unicode.IsSpace\<close> of the first rune of the field.\<close>

definition firstRuneIsSpace :: "string \<Rightarrow> bool" where
  "firstRuneIsSpace field = list_ex (\<lambda>p. take (length p) field = p) space_runes"

definition fieldNeedsQuotes :: "string \<Rightarrow> bool" where
  "fieldNeedsQuotes field =
     (if field = [] then False
      else if field = [CHR 0x5C, CHR 0x2E] then True
      else if list_ex (\<lambda>c. c = NL \<or> c = CR \<or> c = QUOTE \<or> c = COMMA) field then True
      else firstRuneIsSpace field)"

text \<open>
  The body of a quoted field: a quote is written twice; with \<open>UseCRLF\<close> off a carriage
  return and a line feed are written as they are.
\<close>

fun escapeField :: "string \<Rightarrow> string" where
  "escapeField [] = []"
| "escapeField (c # cs) = (if c = QUOTE then [QUOTE, QUOTE] else [c]) @ escapeField cs"

definition writeField :: "string \<Rightarrow> string" where
  "writeField field =
     (if \<not> fieldNeedsQuotes field then field else [QUOTE] @ escapeField field @ [QUOTE])"

fun writeFields :: "string list \<Rightarrow> string" where
  "writeFields [] = []"
| "writeFields [field] = writeField field"
| "writeFields (field # flds) = writeField field @ [COMMA] @ writeFields flds"

text \<open>\<open>Writer.Write\<close>: the bytes one record adds to the buffer.\<close>

definition csv_Write :: "string list \<Rightarrow> string" where
  "csv_Write record = writeFields record @ [NL]"

subsection \<open>Reader\<close>

datatype csv_error = ErrBareQuote | ErrQuote | ErrFieldCount

definition lengthNL :: "string \<Rightarrow> nat" where
  "lengthNL b = (if b \<noteq> [] \<and> last b = NL then 1 else 0)"

text \<open>
  \<open>readLine\<close> returns the next line with its line feed and the input after it, \<open>None\<close>
  at the end of the input. A carriage return before the line feed is removed, and so is
  one at the very end of an input that has no final line feed.
\<close>

definition readLine :: "string \<Rightarrow> (string \<times> string) option" where
  "readLine inp =
     (if inp = [] then None
      else
        (let pre = takeWhile (\<lambda>c. c \<noteq> NL) inp;
             post = dropWhile (\<lambda>c. c \<noteq> NL) inp
         in if post = [] then Some (if last pre = CR then butlast pre else pre, [])
            else if pre \<noteq> [] \<and> last pre = CR then Some (butlast pre @ [NL], tl post)
            else Some (pre @ [NL], tl post)))"

text \<open>
  The field loop of \<open>readRecord\<close>. \<open>parseFields line rest\<close> parses the fields that start in
  \<open>line\<close>; \<open>parseQuoted acc line rest\<close> is inside a quoted field whose text so far is
  \<open>acc\<close>, and reads further lines from \<open>rest\<close> when the field goes on. The result is the
  list of fields and the input that is left.
\<close>

function parseFields :: "string \<Rightarrow> string \<Rightarrow> csv_error + (string list \<times> string)"
  and parseQuoted :: "string \<Rightarrow> string \<Rightarrow> string \<Rightarrow> csv_error + (string list \<times> string)"
where
  "parseFields line rest =
     (if line = [] \<or> hd line \<noteq> QUOTE then
        (let after = dropWhile (\<lambda>c. c \<noteq> COMMA) line;
             field = (if after \<noteq> [] then takeWhile (\<lambda>c. c \<noteq> COMMA) line
                      else take (length line - lengthNL line) line)
         in if QUOTE \<in> set field then Inl ErrBareQuote
            else if after \<noteq> [] then
              (case parseFields (tl after) rest of
                 Inl err \<Rightarrow> Inl err
               | Inr (flds, rest') \<Rightarrow> Inr (field # flds, rest'))
            else Inr ([field], rest))
      else parseQuoted [] (tl line) rest)"
| "parseQuoted acc line rest =
     (let after = dropWhile (\<lambda>c. c \<noteq> QUOTE) line in
      if after \<noteq> [] then
        (let acc' = acc @ takeWhile (\<lambda>c. c \<noteq> QUOTE) line;
             line' = tl after
         in if line' \<noteq> [] \<and> hd line' = QUOTE then parseQuoted (acc' @ [QUOTE]) (tl line') rest
            else if line' \<noteq> [] \<and> hd line' = COMMA then
              (case parseFields (tl line') rest of
                 Inl err \<Rightarrow> Inl err
               | Inr (flds, rest') \<Rightarrow> Inr (acc' # flds, rest'))
            else if lengthNL line' = length line' then Inr ([acc'], rest)
            else Inl ErrQuote)
      else if line \<noteq> [] then
        (case readLine rest of
           Some (l, r) \<Rightarrow> parseQuoted (acc @ line) l r
         | None \<Rightarrow> parseQuoted (acc @ line) [] [])
      else Inl ErrQuote)"
  by pat_completeness auto
termination
proof -
  have rl: "length l + length r \<le> length inp" if "readLine inp = Some (l, r)" for inp l r
  proof -
    let ?pre = "takeWhile (\<lambda>c. c \<noteq> NL) inp" and ?post = "dropWhile (\<lambda>c. c \<noteq> NL) inp"
    have a: "length ?pre + length ?post = length inp"
      by (metis length_append takeWhile_dropWhile_id)
    from that have b: "inp \<noteq> []" by (auto simp: readLine_def)
    show ?thesis
    proof (cases "?post = []")
      case True
      with that b have "l = (if last ?pre = CR then butlast ?pre else ?pre)" "r = []"
        unfolding readLine_def Let_def
        by (simp_all only: if_False if_True option.inject prod.inject refl)
      with a show ?thesis by auto
    next
      case False
      then have c: "length (tl ?post) + 1 = length ?post" by (cases ?post) simp_all
      from that b False
      have "l = (if ?pre \<noteq> [] \<and> last ?pre = CR then butlast ?pre @ [NL] else ?pre @ [NL])"
        and "r = tl ?post"
        unfolding readLine_def Let_def
        by (auto simp only: if_False if_True option.inject prod.inject refl split: if_splits)
      with a c show ?thesis by auto
    qed
  qed
  have d: "length (dropWhile P xs) - Suc n < length xs" if "xs \<noteq> []"
    for P n and xs :: string
    using that length_dropWhile_le [of P xs] by (cases xs) auto
  have rl2: "length l + length r < length line + length inp"
    if "readLine inp = Some (l, r)" "line \<noteq> []" for inp l r and line :: string
    using rl [OF that(1)] that(2) by (cases line) simp_all
  show ?thesis
    by (relation "measure (\<lambda>x. case x of Inl (line, rest) \<Rightarrow> length line + length rest
                                   | Inr (acc, line, rest) \<Rightarrow> length line + length rest)")
      (auto intro!: d rl2)
qed

text \<open>
  \<open>readRecord\<close> skips empty lines and parses the fields of the next record; \<open>None\<close> stands
  for \<open>io.EOF\<close>.
\<close>

function readRecord :: "string \<Rightarrow> (csv_error + (string list \<times> string)) option" where
  "readRecord inp =
     (case readLine inp of
        None \<Rightarrow> None
      | Some (line, rest) \<Rightarrow>
          if length line = lengthNL line then readRecord rest
          else Some (parseFields line rest))"
  by pat_completeness auto
termination
proof -
  have "length r < length inp" if "readLine inp = Some (l, r)" for inp l r
  proof -
    let ?post = "dropWhile (\<lambda>c. c \<noteq> NL) inp"
    from that have b: "inp \<noteq> []" by (auto simp: readLine_def)
    show ?thesis
    proof (cases "?post = []")
      case True
      with that b have "r = []"
        unfolding readLine_def Let_def
        by (simp_all only: if_False if_True option.inject prod.inject refl)
      with b show ?thesis by simp
    next
      case False
      then have c: "length (tl ?post) < length ?post" by (cases ?post) simp_all
      from that b False have "r = tl ?post"
        unfolding readLine_def Let_def
        by (auto simp only: if_False if_True option.inject prod.inject refl split: if_splits)
      with c length_dropWhile_le [of "\<lambda>c. c \<noteq> NL" inp] show ?thesis by simp
    qed
  qed
  then show ?thesis
    by (relation "measure length") auto
qed

declare parseFields.simps [simp del] parseQuoted.simps [simp del] readRecord.simps [simp del]

text \<open>
  \<open>ReadAll\<close>: all records up to the end of the input. \<open>fpr\<close> is the reader's
  \<open>FieldsPerRecord\<close>: 0 until the first record has set it, then the number of fields
  that every later record must have.
\<close>

function readRecords :: "nat \<Rightarrow> string \<Rightarrow> csv_error + string list list" where
  "readRecords fpr inp =
     (case readRecord inp of
        None \<Rightarrow> Inr []
      | Some (Inl err) \<Rightarrow> Inl err
      | Some (Inr (record, rest)) \<Rightarrow>
          if fpr > 0 \<and> length record \<noteq> fpr then Inl ErrFieldCount
          else
            (case readRecords (if fpr = 0 then length record else fpr) rest of
               Inl err \<Rightarrow> Inl err
             | Inr records \<Rightarrow> Inr (record # records)))"
  by pat_completeness auto
termination
proof -
  have rl: "length l + length r \<le> length inp \<and> length r < length inp"
    if "readLine inp = Some (l, r)" for inp l r
  proof -
    let ?pre = "takeWhile (\<lambda>c. c \<noteq> NL) inp" and ?post = "dropWhile (\<lambda>c. c \<noteq> NL) inp"
    have a: "length ?pre + length ?post = length inp"
      by (metis length_append takeWhile_dropWhile_id)
    from that have b: "inp \<noteq> []" by (auto simp: readLine_def)
    show ?thesis
    proof (cases "?post = []")
      case True
      with that b have "l = (if last ?pre = CR then butlast ?pre else ?pre)" "r = []"
        unfolding readLine_def Let_def
        by (simp_all only: if_False if_True option.inject prod.inject refl)
      with a b show ?thesis by auto
    next
      case False
      then have c: "length (tl ?post) + 1 = length ?post" by (cases ?post) simp_all
      from that b False
      have "l = (if ?pre \<noteq> [] \<and> last ?pre = CR then butlast ?pre @ [NL] else ?pre @ [NL])"
        and "r = tl ?post"
        unfolding readLine_def Let_def
        by (auto simp only: if_False if_True option.inject prod.inject refl split: if_splits)
      with a c show ?thesis by auto
    qed
  qed
  have pf: "(\<forall>flds r. parseFields line rest = Inr (flds, r) \<longrightarrow> length r \<le> length rest)"
    and pq: "(\<forall>flds r. parseQuoted acc line' rest' = Inr (flds, r) \<longrightarrow> length r \<le> length rest')"
    for line rest acc line' rest'
  proof (induction line rest and acc line' rest' rule: parseFields_parseQuoted.induct)
    case (1 line rest)
    show ?case
    proof (intro allI impI)
      fix flds r
      assume res: "parseFields line rest = Inr (flds, r)"
      show "length r \<le> length rest"
      proof (cases "line = [] \<or> hd line \<noteq> QUOTE")
        case True
        note unq = this
        let ?after = "dropWhile (\<lambda>c. c \<noteq> COMMA) line"
        let ?field = "if ?after \<noteq> [] then takeWhile (\<lambda>c. c \<noteq> COMMA) line
                      else take (length line - lengthNL line) line"
        from res unq have nq: "QUOTE \<notin> set ?field"
          by (auto simp: parseFields.simps [of line rest] Let_def split: if_splits)
        show ?thesis
        proof (cases "?after \<noteq> []")
          case True
          with res unq nq obtain flds' where "parseFields (tl ?after) rest = Inr (flds', r)"
            by (auto simp: parseFields.simps [of line rest] Let_def split: if_splits sum.splits)
          with "1.IH"(1) [OF unq refl refl nq True] show ?thesis by blast
        next
          case False
          with res unq nq show ?thesis
            by (auto simp: parseFields.simps [of line rest] Let_def split: if_splits)
        qed
      next
        case False
        with res have "parseQuoted [] (tl line) rest = Inr (flds, r)"
          by (simp add: parseFields.simps [of line rest])
        with "1.IH"(2) [OF False] show ?thesis by blast
      qed
    qed
  next
    case (2 acc line rest)
    show ?case
    proof (intro allI impI)
      fix flds r
      assume res: "parseQuoted acc line rest = Inr (flds, r)"
      let ?after = "dropWhile (\<lambda>c. c \<noteq> QUOTE) line"
      let ?acc = "acc @ takeWhile (\<lambda>c. c \<noteq> QUOTE) line"
      let ?line = "tl ?after"
      show "length r \<le> length rest"
      proof (cases "?after \<noteq> []")
        case True
        note aft = this
        consider (dq) "?line \<noteq> [] \<and> hd ?line = QUOTE"
          | (comma) "\<not> (?line \<noteq> [] \<and> hd ?line = QUOTE)" "?line \<noteq> [] \<and> hd ?line = COMMA"
          | (other) "\<not> (?line \<noteq> [] \<and> hd ?line = QUOTE)" "\<not> (?line \<noteq> [] \<and> hd ?line = COMMA)"
          by blast
        then show ?thesis
        proof cases
          case dq
          with res aft have "parseQuoted (?acc @ [QUOTE]) (tl ?line) rest = Inr (flds, r)"
            by (simp add: parseQuoted.simps [of acc line rest] Let_def)
          with "2.IH"(1) [OF refl aft refl refl dq] show ?thesis by blast
        next
          case comma
          with res aft obtain flds' where "parseFields (tl ?line) rest = Inr (flds', r)"
            by (auto simp: parseQuoted.simps [of acc line rest] Let_def split: sum.splits)
          with "2.IH"(2) [OF refl aft refl refl comma] show ?thesis by blast
        next
          case other
          with res aft show ?thesis
            by (auto simp: parseQuoted.simps [of acc line rest] Let_def split: if_splits)
        qed
      next
        case False
        note naft = this
        show ?thesis
        proof (cases "line = []")
          case True
          with res show ?thesis
            by (simp add: parseQuoted.simps [of acc "[]" rest])
        next
          case False
          show ?thesis
          proof (cases "readLine rest")
            case None
            with res naft False have "parseQuoted (acc @ line) [] [] = Inr (flds, r)"
              by (simp add: parseQuoted.simps [of acc line rest] Let_def)
            with "2.IH"(3) [OF refl naft False None] show ?thesis by simp
          next
            case (Some lr)
            obtain l r' where lr: "lr = (l, r')" by (cases lr)
            with Some res naft False have "parseQuoted (acc @ line) l r' = Inr (flds, r)"
              by (simp add: parseQuoted.simps [of acc line rest] Let_def)
            with "2.IH"(4) [OF refl naft False Some [unfolded lr] refl] have "length r \<le> length r'"
              by blast
            with rl [OF Some [unfolded lr]] show ?thesis by simp
          qed
        qed
      qed
    qed
  qed
  have rr: "\<forall>flds r. readRecord inp = Some (Inr (flds, r)) \<longrightarrow> length r < length inp" for inp
  proof (induction inp rule: readRecord.induct)
    case (1 inp)
    show ?case
    proof (intro allI impI)
      fix flds r
      assume res: "readRecord inp = Some (Inr (flds, r))"
      then obtain line rest where rd: "readLine inp = Some (line, rest)"
        by (cases "readLine inp") (auto simp: readRecord.simps [of inp])
      show "length r < length inp"
      proof (cases "length line = lengthNL line")
        case True
        with res rd have "readRecord rest = Some (Inr (flds, r))"
          by (simp add: readRecord.simps [of inp])
        with "1.IH" [OF rd refl True] rl [OF rd] show ?thesis by force
      next
        case False
        with res rd have "parseFields line rest = Inr (flds, r)"
          by (simp add: readRecord.simps [of inp])
        with pf [of line rest] rl [OF rd] show ?thesis by force
      qed
    qed
  qed
  show ?thesis
    by (relation "measure (\<lambda>(fpr, inp). length inp)") (auto simp: rr)
qed

declare readRecords.simps [simp del]

definition ReadAll :: "string \<Rightarrow> csv_error + string list list" where
  "ReadAll inp = readRecords 0 inp"

definition csv_error_text :: "csv_error \<Rightarrow> string" where
  "csv_error_text err =
     (case err of
        ErrBareQuote \<Rightarrow> ''bare '' @ [QUOTE] @ '' in non-quoted-field''
      | ErrQuote \<Rightarrow> ''extraneous or missing '' @ [QUOTE] @ '' in quoted-field''
      | ErrFieldCount \<Rightarrow> ''wrong number of fields'')"

section \<open>The program\<close>

subsection \<open>Media Store: \<open>saveMedia\<close>\<close>

definition saveMedia :: "env \<Rightarrow> string \<Rightarrow> bytes \<Rightarrow> world \<Rightarrow> (error + string) \<times> world" where
  "saveMedia e mediaType mediaData w =
    (let dir = ''media/'' @ mediaType in
     case mkdir_err e of
       Some err \<Rightarrow> (Inl err, logf (''Failed to create directory: '' @ err) w)
     | None \<Rightarrow>
        (let w1 = w\<lparr>dirs := dirs w \<union> {''media'', dir}\<rparr>;
             extension =
               (if mediaType = ''image'' then ''.jpg''
                else if mediaType = ''video'' then ''.mp4''
                else if mediaType = ''audio'' then ''.ogg''
                else if mediaType = ''document'' then ''.pdf''
                else '''');
             filename = dir @ ''/'' @ sprint_d (media_nanos e) @ extension
         in case writefile_err e of
              Some err \<Rightarrow> (Inl err, logf (''Failed to save media file: '' @ err) w1)
            | None \<Rightarrow>
                (Inr filename,
                 logf (''Saved media file: '' @ filename)
                   (w1\<lparr>media_files := (media_files w1)(filename \<mapsto> mediaData)\<rparr>))))"

subsection \<open>Append Log: \<open>writeToCSV\<close> and \<open>getCSVContentsHandler\<close>\<close>

text \<open>
  The file is opened with \<open>O_APPEND|O_CREATE|O_WRONLY\<close>, so an absent file becomes an
  empty one as soon as the open succeeds. The records go through a buffered writer that
  is flushed when the function returns; the result of that flush is not looked at. A
  write that reports an error and a flush that fails leave the file as it was.
\<close>

definition writeToCSV :: "env \<Rightarrow> string \<Rightarrow> string \<Rightarrow> string \<Rightarrow> string \<Rightarrow> world \<Rightarrow> world" where
  "writeToCSV e sender messageType message timestamp w =
    (case open_err e of
       Some err \<Rightarrow> logf (''Failed to open CSV file: '' @ err) w
     | None \<Rightarrow>
        (let old = (case csv_file w of None \<Rightarrow> [] | Some content \<Rightarrow> content);
             w1 = w\<lparr>csv_file := Some old\<rparr>
         in case stat_err e of
              Some err \<Rightarrow> logf (''Failed to get file info: '' @ err) w1
            | None \<Rightarrow>
               (case (if length old = 0 then header_write_err e else None) of
                  Some err \<Rightarrow> logf (''Failed to write headers to CSV file: '' @ err) w1
                | None \<Rightarrow>
                   (let headers =
                          (if length old = 0
                           then csv_Write [''id'', ''phone'', ''type'', ''text'', ''datetime'']
                           else [])
                    in case record_write_err e of
                         Some err \<Rightarrow> logf (''Failed to write to CSV file: '' @ err) w1
                       | None \<Rightarrow>
                          (case flush_err e of
                             Some err \<Rightarrow> w1
                           | None \<Rightarrow>
                               w1\<lparr>csv_file :=
                                    Some (old @ headers
                                          @ csv_Write [sprint_d (csv_nanos e), sender, messageType,
                                                       message, timestamp])\<rparr>)))))"

text \<open>
  The earlier revision of the same function (the second source file): no type column,
  and the time stamp is formatted here.
\<close>

definition writeToCSV_v1 :: "env \<Rightarrow> string \<Rightarrow> string \<Rightarrow> Time \<Rightarrow> world \<Rightarrow> world" where
  "writeToCSV_v1 e sender message timestamp w =
    (case open_err e of
       Some err \<Rightarrow> logf (''Failed to open CSV file: '' @ err) w
     | None \<Rightarrow>
        (let old = (case csv_file w of None \<Rightarrow> [] | Some content \<Rightarrow> content);
             w1 = w\<lparr>csv_file := Some old\<rparr>
         in case stat_err e of
              Some err \<Rightarrow> logf (''Failed to get file info: '' @ err) w1
            | None \<Rightarrow>
               (case (if length old = 0 then header_write_err e else None) of
                  Some err \<Rightarrow> logf (''Failed to write headers to CSV file: '' @ err) w1
                | None \<Rightarrow>
                   (let headers =
                          (if length old = 0
                           then csv_Write [''id'', ''phone'', ''text'', ''datetime'']
                           else [])
                    in case record_write_err e of
                         Some err \<Rightarrow> logf (''Failed to write to CSV file: '' @ err) w1
                       | None \<Rightarrow>
                          (case flush_err e of
                             Some err \<Rightarrow> w1
                           | None \<Rightarrow>
                               w1\<lparr>csv_file :=
                                    Some (old @ headers
                                          @ csv_Write [sprint_d (csv_nanos e), sender, message,
                                                       Format_RFC3339 timestamp])\<rparr>)))))"

text \<open>
  What a handler sends back: a JSON object with a status code, or a body with a content
  type. A value of a JSON member is a string, an error value handed to the encoder as it
  is, or the rows of the log; the strings are those that a client decodes from the
  response. The picture of a barcode is described by what it was made from: the text,
  the recovery level and the size asked for.
\<close>

datatype json = JString string | JError error | JRows "string list list"

datatype recovery_level = Low | Medium | High | Highest

record barcode_image =
  barcode_content :: string
  barcode_level :: recovery_level
  barcode_size :: int

datatype response =
  JSON nat "(string \<times> json) list"
| PNG string barcode_image

text \<open>
  \<open>c.JSON\<close> encodes with \<open>encoding/json\<close>, which writes a string as valid UTF-8: it goes
  through the bytes rune by rune and writes U+FFFD (the bytes EF BF BD) for every byte
  that does not start a well-formed encoding. \<open>utf8_size\<close> is the length of the well-formed
  encoding at the head of a string, as \<open>utf8.DecodeRuneInString\<close> accepts it, and 0 when
  there is none; \<open>coerce_from k\<close> copies the next \<open>k\<close> bytes, which belong to an
  encoding already accepted, and then goes on rune by rune.
\<close>

definition byte_in :: "nat \<Rightarrow> nat \<Rightarrow> char \<Rightarrow> bool" where
  "byte_in lo hi c = (lo \<le> of_char c \<and> (of_char c :: nat) \<le> hi)"

fun utf8_size :: "string \<Rightarrow> nat" where
  "utf8_size [] = 0"
| "utf8_size (b # bs) =
     (let x = of_char b :: nat in
      if x < 0x80 then 1
      else if 0xC2 \<le> x \<and> x \<le> 0xDF then
        (case bs of
           c1 # _ \<Rightarrow> if byte_in 0x80 0xBF c1 then 2 else 0
         | _ \<Rightarrow> 0)
      else if 0xE0 \<le> x \<and> x \<le> 0xEF then
        (case bs of
           c1 # c2 # _ \<Rightarrow>
             if byte_in (if x = 0xE0 then 0xA0 else 0x80) (if x = 0xED then 0x9F else 0xBF) c1
                \<and> byte_in 0x80 0xBF c2
             then 3 else 0
         | _ \<Rightarrow> 0)
      else if 0xF0 \<le> x \<and> x \<le> 0xF4 then
        (case bs of
           c1 # c2 # c3 # _ \<Rightarrow>
             if byte_in (if x = 0xF0 then 0x90 else 0x80) (if x = 0xF4 then 0x8F else 0xBF) c1
                \<and> byte_in 0x80 0xBF c2 \<and> byte_in 0x80 0xBF c3
             then 4 else 0
         | _ \<Rightarrow> 0)
      else 0)"

fun coerce_from :: "nat \<Rightarrow> string \<Rightarrow> string" where
  "coerce_from k [] = []"
| "coerce_from k (b # bs) =
     (if 0 < k then b # coerce_from (k - 1) bs
      else
        (let n = utf8_size (b # bs)
         in if n = 0 then [CHR 0xEF, CHR 0xBF, CHR 0xBD] @ coerce_from 0 bs
            else b # coerce_from (n - 1) bs))"

definition toValidUTF8 :: "string \<Rightarrow> string" where
  "toValidUTF8 s = coerce_from 0 s"

definition json_value :: "json \<Rightarrow> json" where
  "json_value v =
     (case v of
        JString s \<Rightarrow> JString (toValidUTF8 s)
      | JError err \<Rightarrow> JError err
      | JRows rows \<Rightarrow> JRows (map (map toValidUTF8) rows))"

definition c_JSON :: "nat \<Rightarrow> (string \<times> json) list \<Rightarrow> response" where
  "c_JSON code obj = JSON code (map (\<lambda>(k, v). (toValidUTF8 k, json_value v)) obj)"

text \<open>
  When the log cannot be parsed the library's error also names the line and the column;
  the model does not keep track of positions, and the line it logs carries the kind of the
  error only.
\<close>

definition getCSVContentsHandler :: "world \<Rightarrow> response \<times> world" where
  "getCSVContentsHandler w =
     (case csv_file w of
        None \<Rightarrow>
          (c_JSON 500 [(''error'', JString ''Failed to open CSV file'')],
           logf ''Failed to open CSV file: open messages.csv: no such file or directory'' w)
      | Some content \<Rightarrow>
          (case ReadAll content of
             Inl err \<Rightarrow>
               (c_JSON 500 [(''error'', JString ''Failed to read CSV file'')],
                logf (''Failed to read CSV file: '' @ csv_error_text err) w)
           | Inr records \<Rightarrow> (c_JSON 200 [(''data'', JRows records)], w)))"

subsection \<open>Message Classifier: \<open>handleReceivedMessage\<close>\<close>

definition client_Download :: "env \<Rightarrow> downloadable \<Rightarrow> world \<Rightarrow> (error + bytes) \<times> world" where
  "client_Download e m w = (download e m, w\<lparr>client_calls := client_calls w @ [CallDownload m]\<rparr>)"

definition handleReceivedMessage :: "env \<Rightarrow> MessageEvent \<Rightarrow> world \<Rightarrow> world" where
  "handleReceivedMessage e ev w0 =
    (let sender = JID_String (Info_Sender ev);
         msg = Message ev;
         timestamp = Format_RFC3339 (Info_Timestamp ev);
         w = logf (''Received message from '' @ sender @ '' at '' @ timestamp) w0
     in
     if GetConversation msg \<noteq> '''' then
       (let conversation = GetConversation msg
        in writeToCSV e sender ''Conversation'' conversation timestamp
             (logf (''Conversation: '' @ conversation) w))
     else case GetExtendedTextMessage msg of
       Some extendedText \<Rightarrow>
         (let extendedTextMsg = string_value (extended_text extendedText)
          in writeToCSV e sender ''ExtendedText'' extendedTextMsg timestamp
               (logf (''Extended Text Message: '' @ extendedTextMsg) w))
     | None \<Rightarrow>
     (case GetImageMessage msg of
       Some imageMessage \<Rightarrow>
         (let caption = string_value (image_caption imageMessage)
          in case client_Download e (DownloadImage imageMessage) w of
               (Inl err, w1) \<Rightarrow> logf (''Failed to download image data: '' @ err) w1
             | (Inr imageData, w1) \<Rightarrow>
                 (case saveMedia e ''image'' imageData (logf ''Received an image message'' w1) of
                    (Inl err, w2) \<Rightarrow> logf (''Failed to save image: '' @ err) w2
                  | (Inr imagePath, w2) \<Rightarrow>
                      writeToCSV e sender ''Image''
                        (''Caption: '' @ caption @ '', Path: '' @ imagePath) timestamp w2))
     | None \<Rightarrow>
     (case GetVideoMessage msg of
       Some videoMessage \<Rightarrow>
         (let caption = string_value (video_caption videoMessage)
          in case client_Download e (DownloadVideo videoMessage) w of
               (Inl err, w1) \<Rightarrow> logf (''Failed to download video data: '' @ err) w1
             | (Inr videoData, w1) \<Rightarrow>
                 (case saveMedia e ''video'' videoData (logf ''Received a video message'' w1) of
                    (Inl err, w2) \<Rightarrow> logf (''Failed to save video: '' @ err) w2
                  | (Inr videoPath, w2) \<Rightarrow>
                      writeToCSV e sender ''Video''
                        (''Caption: '' @ caption @ '', Path: '' @ videoPath) timestamp w2))
     | None \<Rightarrow>
     (case GetDocumentMessage msg of
       Some documentMessage \<Rightarrow>
         (let fileName = string_value (document_fileName documentMessage)
          in case client_Download e (DownloadDocument documentMessage) w of
               (Inl err, w1) \<Rightarrow> logf (''Failed to download document data: '' @ err) w1
             | (Inr documentData, w1) \<Rightarrow>
                 (case saveMedia e ''document'' documentData
                         (logf ''Received a document message'' w1) of
                    (Inl err, w2) \<Rightarrow> logf (''Failed to save document: '' @ err) w2
                  | (Inr documentPath, w2) \<Rightarrow>
                      writeToCSV e sender ''Document''
                        (''FileName: '' @ fileName @ '', Path: '' @ documentPath) timestamp w2))
     | None \<Rightarrow>
     (case GetAudioMessage msg of
       Some audioMessage \<Rightarrow>
         (case client_Download e (DownloadAudio audioMessage) w of
            (Inl err, w1) \<Rightarrow> logf (''Failed to download audio data: '' @ err) w1
          | (Inr audioData, w1) \<Rightarrow>
              (case saveMedia e ''audio'' audioData (logf ''Received an audio message'' w1) of
                 (Inl err, w2) \<Rightarrow> logf (''Failed to save audio: '' @ err) w2
               | (Inr audioPath, w2) \<Rightarrow> writeToCSV e sender ''Audio'' audioPath timestamp w2))
     | None \<Rightarrow>
     (case GetContactMessage msg of
       Some contactMessage \<Rightarrow>
         (let contactName = string_value (contact_displayName contactMessage)
          in writeToCSV e sender ''Contact'' contactName timestamp
               (logf ''Received a contact message'' w))
     | None \<Rightarrow>
     (case GetLocationMessage msg of
       Some locationMessage \<Rightarrow>
         (let location = ''Lat: '' @ location_latitude locationMessage
                         @ '', Long: '' @ location_longitude locationMessage
          in writeToCSV e sender ''Location'' location timestamp
               (logf ''Received a location message'' w))
     | None \<Rightarrow>
         writeToCSV e sender ''Unknown'' ''Unknown message type'' timestamp
           (logf (''Received an unhandled message type from '' @ sender) w))))))))"

subsection \<open>HTTP Facade: sending\<close>

definition sendMessage :: "env \<Rightarrow> string \<Rightarrow> string \<Rightarrow> world \<Rightarrow> error option \<times> world" where
  "sendMessage e jid text w =
    (let targetJID = NewJID jid ''s.whatsapp.net'';
         outgoing = \<lparr>conversation_field = Some text, extendedTextMessage_field = None, imageMessage_field = None,
                     videoMessage_field = None, documentMessage_field = None, audioMessage_field = None,
                     contactMessage_field = None, locationMessage_field = None\<rparr>;
         w1 = w\<lparr>client_calls := client_calls w @ [CallSendMessage targetJID outgoing]\<rparr>
     in case send_message e targetJID outgoing of
          Some err \<Rightarrow> (Some err, logf (''Failed to send message: '' @ err) w1)
        | None \<Rightarrow>
            (let timestamp = Format_RFC3339 (send_time e)
             in (None, writeToCSV e ''me'' ''SentMessage'' text timestamp w1)))"

text \<open>The earlier revision of \<open>sendMessage\<close> (the second source file).\<close>

definition sendMessage_v1 :: "env \<Rightarrow> string \<Rightarrow> string \<Rightarrow> world \<Rightarrow> error option \<times> world" where
  "sendMessage_v1 e jid text w =
    (let targetJID = NewJID jid ''s.whatsapp.net'';
         outgoing = \<lparr>conversation_field = Some text, extendedTextMessage_field = None, imageMessage_field = None,
                     videoMessage_field = None, documentMessage_field = None, audioMessage_field = None,
                     contactMessage_field = None, locationMessage_field = None\<rparr>;
         w1 = w\<lparr>client_calls := client_calls w @ [CallSendMessage targetJID outgoing]\<rparr>
     in case send_message e targetJID outgoing of
          Some err \<Rightarrow> (Some err, logf (''Failed to send message: '' @ err) w1)
        | None \<Rightarrow> (None, writeToCSV_v1 e ''me'' text (send_time e) w1))"

text \<open>
  The body of a \<open>POST /send\<close> request as the JSON binding sees it: either it cannot be
  decoded into the request struct, or it is an object in which each of the members
  \<open>jid\<close> and \<open>text\<close> is a string or is missing. A missing member leaves the zero value
  \<open>""\<close> in the struct, and the \<open>required\<close> tag rejects a zero value.
\<close>

datatype request_body =
  Undecodable error
| Object "string option" "string option"

record send_request =
  request_JID :: string
  request_Text :: string

definition required_error :: "string \<Rightarrow> string" where
  "required_error field =
     ''Key: '' @ [CHR 0x27] @ field @ [CHR 0x27] @ '' Error:Field validation for ''
     @ [CHR 0x27] @ field @ [CHR 0x27] @ '' failed on the '' @ [CHR 0x27] @ ''required''
     @ [CHR 0x27] @ '' tag''"

definition ShouldBindJSON :: "request_body \<Rightarrow> error + send_request" where
  "ShouldBindJSON body =
     (case body of
        Undecodable err \<Rightarrow> Inl err
      | Object jid text \<Rightarrow>
          (let request = \<lparr>request_JID = string_value jid, request_Text = string_value text\<rparr>
           in if request_JID request = '''' \<and> request_Text request = '''' then
                Inl (required_error ''JID'' @ [NL] @ required_error ''Text'')
              else if request_JID request = '''' then Inl (required_error ''JID'')
              else if request_Text request = '''' then Inl (required_error ''Text'')
              else Inr request))"

definition sendMessageHandler :: "env \<Rightarrow> request_body \<Rightarrow> world \<Rightarrow> response \<times> world" where
  "sendMessageHandler e body w =
     (case ShouldBindJSON body of
        Inl err \<Rightarrow>
          (c_JSON 400 [(''error'', JString err)], logf (''Failed to bind JSON: '' @ err) w)
      | Inr request \<Rightarrow>
          (let w1 = logf (''Received request to send message: {'' @ request_JID request
                          @ '' '' @ request_Text request @ ''}'') w
           in case sendMessage e (request_JID request) (request_Text request) w1 of
                (Some err, w2) \<Rightarrow>
                  (c_JSON 500 [(''error'', JError err)],
                   logf (''Failed to send message: '' @ err) w2)
              | (None, w2) \<Rightarrow>
                  (c_JSON 200 [(''status'', JString ''Message sent'')],
                   logf ''Message sent successfully'' w2)))"

subsection \<open>Session Bootstrap and HTTP Facade: the login code\<close>

text \<open>
  \<open>os.Create\<close> truncates the file; a write that fails leaves it truncated.
\<close>

definition saveQRCode :: "env \<Rightarrow> string \<Rightarrow> world \<Rightarrow> world" where
  "saveQRCode e code w =
     (case create_err e of
        Some err \<Rightarrow> logf (''Failed to create QR code file: '' @ err) w
      | None \<Rightarrow>
          (let w1 = w\<lparr>qrcode_file := Some []\<rparr>
           in case writestring_err e of
                Some err \<Rightarrow> logf (''Failed to write QR code to file: '' @ err) w1
              | None \<Rightarrow> w1\<lparr>qrcode_file := Some code\<rparr>))"

definition generateQRTextHandler :: "world \<Rightarrow> response \<times> world" where
  "generateQRTextHandler w =
     (case qrcode_file w of
        None \<Rightarrow>
          (c_JSON 500 [(''error'', JString ''Failed to generate QR code'')],
           logf ''Failed to read QR code file: open qrcode.txt: no such file or directory'' w)
      | Some code \<Rightarrow> (c_JSON 200 [(''qr_code'', JString code)], w))"

text \<open>
  \<open>qrcode.New\<close> refuses an empty content; whether it can encode any other content (the
  content may be too long) is left to the environment.
\<close>

definition qrcode_New :: "env \<Rightarrow> string \<Rightarrow> error option" where
  "qrcode_New e content =
     (if content = [] then Some ''no data to encode'' else qr_new_err e content)"

definition generateQRPhotoHandler :: "env \<Rightarrow> world \<Rightarrow> response \<times> world" where
  "generateQRPhotoHandler e w =
     (case qrcode_file w of
        None \<Rightarrow>
          (c_JSON 500 [(''error'', JString ''Failed to generate QR code'')],
           logf ''Failed to read QR code file: open qrcode.txt: no such file or directory'' w)
      | Some code \<Rightarrow>
          (case qrcode_New e code of
             Some err \<Rightarrow>
               (c_JSON 500 [(''error'', JString ''Failed to generate QR code'')],
                logf (''Failed to generate QR code image: '' @ err) w)
           | None \<Rightarrow>
               (case png_encode_err e of
                  Some err \<Rightarrow>
                    (c_JSON 500 [(''error'', JString ''Failed to generate QR code'')],
                     logf (''Failed to encode QR code image: '' @ err) w)
                | None \<Rightarrow>
                    (PNG ''image/png''
                       \<lparr>barcode_content = code, barcode_level = Medium, barcode_size = 256\<rparr>,
                     w))))"

section \<open>Notions of the specification\<close>

text \<open>The extension table of the specification: one fixed extension per media kind.\<close>

definition kind_extension :: "string \<rightharpoonup> string" where
  "kind_extension =
     map_of [(''image'', ''.jpg''), (''video'', ''.mp4''), (''audio'', ''.ogg''),
             (''document'', ''.pdf'')]"

definition media_path :: "string \<Rightarrow> int \<Rightarrow> string" where
  "media_path kind nanos =
     ''media/'' @ kind @ ''/'' @ sprint_d nanos @
     (case kind_extension kind of Some ext \<Rightarrow> ext | None \<Rightarrow> '''')"

section \<open>Concrete inputs\<close>

definition fresh_world :: world where
  "fresh_world =
     \<lparr>csv_file = None, qrcode_file = None, media_files = Map.empty, dirs = {},
      log_lines = [], client_calls = []\<rparr>"

definition noon :: Time where
  "noon = \<lparr>Year = 2024, Month = 6, Day = 10, Hour = 12, Minute = 0, Second = 5, ZoneOffset = 0\<rparr>"

text \<open>An environment in which every call succeeds.\<close>

definition calm_env :: env where
  "calm_env =
     \<lparr>download = (\<lambda>m. Inr ''payload''), send_message = (\<lambda>jid m. None), send_time = noon,
      mkdir_err = None, writefile_err = None, media_nanos = 1718000000123456789,
      open_err = None, stat_err = None, header_write_err = None, record_write_err = None,
      flush_err = None, csv_nanos = 1718000000223456789,
      create_err = None, writestring_err = None, qr_new_err = (\<lambda>code. None),
      png_encode_err = None\<rparr>"

definition alice :: JID where
  "alice = NewJID ''77011234567'' ''s.whatsapp.net''"

definition no_content :: Message where
  "no_content =
     \<lparr>conversation_field = None, extendedTextMessage_field = None, imageMessage_field = None,
      videoMessage_field = None, documentMessage_field = None, audioMessage_field = None,
      contactMessage_field = None, locationMessage_field = None\<rparr>"

text \<open>A message that carries an image and a video at once.\<close>

definition image_and_video_event :: MessageEvent where
  "image_and_video_event =
     \<lparr>Info_Sender = alice, Info_Timestamp = noon,
      Message = Some (no_content
        \<lparr>imageMessage_field := Some \<lparr>image_caption = Some ''hi'', image_directPath = ''/v/1''\<rparr>,
         videoMessage_field := Some \<lparr>video_caption = Some ''clip'', video_directPath = ''/v/2''\<rparr>\<rparr>)\<rparr>"

definition audio_event :: MessageEvent where
  "audio_event =
     \<lparr>Info_Sender = alice, Info_Timestamp = noon,
      Message = Some (no_content\<lparr>audioMessage_field := Some \<lparr>audio_directPath = ''/v/3''\<rparr>\<rparr>)\<rparr>"

text \<open>A text message whose sender identifier is the zero value of the struct.\<close>

definition unnamed_sender_event :: MessageEvent where
  "unnamed_sender_event =
     \<lparr>Info_Sender = \<lparr>User = '''', RawAgent = 0, Device = 0, Integrator = 0, Server = ''''\<rparr>,
      Info_Timestamp = noon,
      Message = Some (no_content\<lparr>conversation_field := Some ''hi''\<rparr>)\<rparr>"



subsection \<open>Content kinds and their precedence\<close>

datatype kind = Text | ExtendedText | Image | Video | Document | Audio | Contact | Location | Unknown

text \<open>
  The predicates of the classifier in their order of precedence; \<open>classify\<close> takes the
  kind of the first predicate that holds, and \<open>Unknown\<close> when none does.
\<close>

definition precedence :: "(kind \<times> (Message option \<Rightarrow> bool)) list" where
  "precedence =
     [(Text, \<lambda>m. GetConversation m \<noteq> ''''),
      (ExtendedText, \<lambda>m. GetExtendedTextMessage m \<noteq> None),
      (Image, \<lambda>m. GetImageMessage m \<noteq> None),
      (Video, \<lambda>m. GetVideoMessage m \<noteq> None),
      (Document, \<lambda>m. GetDocumentMessage m \<noteq> None),
      (Audio, \<lambda>m. GetAudioMessage m \<noteq> None),
      (Contact, \<lambda>m. GetContactMessage m \<noteq> None),
      (Location, \<lambda>m. GetLocationMessage m \<noteq> None)]"

definition classify :: "Message option \<Rightarrow> kind" where
  "classify m = (case find (\<lambda>(k, p). p m) precedence of Some (k, p) \<Rightarrow> k | None \<Rightarrow> Unknown)"

text \<open>The name of a kind in the type column of the log.\<close>

definition type_name :: "kind \<Rightarrow> string" where
  "type_name k =
     (case k of
        Text \<Rightarrow> ''Conversation'' | ExtendedText \<Rightarrow> ''ExtendedText'' | Image \<Rightarrow> ''Image''
      | Video \<Rightarrow> ''Video'' | Document \<Rightarrow> ''Document'' | Audio \<Rightarrow> ''Audio''
      | Contact \<Rightarrow> ''Contact'' | Location \<Rightarrow> ''Location'' | Unknown \<Rightarrow> ''Unknown'')"

definition is_media :: "kind \<Rightarrow> bool" where
  "is_media k = (k = Image \<or> k = Video \<or> k = Document \<or> k = Audio)"

text \<open>The attachment that has to be fetched for a message of a media kind.\<close>

definition media_of :: "Message option \<Rightarrow> downloadable option" where
  "media_of m =
     (case classify m of
        Image \<Rightarrow> map_option DownloadImage (GetImageMessage m)
      | Video \<Rightarrow> map_option DownloadVideo (GetVideoMessage m)
      | Document \<Rightarrow> map_option DownloadDocument (GetDocumentMessage m)
      | Audio \<Rightarrow> map_option DownloadAudio (GetAudioMessage m)
      | _ \<Rightarrow> None)"

text \<open>The download and the save of the attachment both succeed (nothing to do when there is none).\<close>

definition media_stored :: "env \<Rightarrow> Message option \<Rightarrow> bool" where
  "media_stored e m =
     (case media_of m of
        None \<Rightarrow> True
      | Some d \<Rightarrow>
          (case download e d of Inl err \<Rightarrow> False | Inr dat \<Rightarrow> True)
          \<and> mkdir_err e = None \<and> writefile_err e = None)"

text \<open>The payload summary of a message, by kind.\<close>

definition payload_summary :: "env \<Rightarrow> Message option \<Rightarrow> string" where
  "payload_summary e m =
     (case classify m of
        Text \<Rightarrow> GetConversation m
      | ExtendedText \<Rightarrow>
          (case GetExtendedTextMessage m of None \<Rightarrow> '''' | Some x \<Rightarrow> string_value (extended_text x))
      | Image \<Rightarrow>
          ''Caption: ''
          @ (case GetImageMessage m of None \<Rightarrow> '''' | Some x \<Rightarrow> string_value (image_caption x))
          @ '', Path: '' @ media_path ''image'' (media_nanos e)
      | Video \<Rightarrow>
          ''Caption: ''
          @ (case GetVideoMessage m of None \<Rightarrow> '''' | Some x \<Rightarrow> string_value (video_caption x))
          @ '', Path: '' @ media_path ''video'' (media_nanos e)
      | Document \<Rightarrow>
          ''FileName: ''
          @ (case GetDocumentMessage m of None \<Rightarrow> ''''
             | Some x \<Rightarrow> string_value (document_fileName x))
          @ '', Path: '' @ media_path ''document'' (media_nanos e)
      | Audio \<Rightarrow> media_path ''audio'' (media_nanos e)
      | Contact \<Rightarrow>
          (case GetContactMessage m of None \<Rightarrow> ''''
           | Some x \<Rightarrow> string_value (contact_displayName x))
      | Location \<Rightarrow>
          (case GetLocationMessage m of None \<Rightarrow> ''''
           | Some x \<Rightarrow> ''Lat: '' @ location_latitude x @ '', Long: '' @ location_longitude x)
      | Unknown \<Rightarrow> ''Unknown message type'')"

subsection \<open>Well-formed text\<close>

text \<open>A string is well-formed UTF-8 when the JSON encoder leaves it as it is.\<close>

definition valid_utf8 :: "string \<Rightarrow> bool" where
  "valid_utf8 s = (toValidUTF8 s = s)"

subsection \<open>The log as a sequence of bytes\<close>

definition csv_content :: "world \<Rightarrow> string" where
  "csv_content w = (case csv_file w of None \<Rightarrow> [] | Some content \<Rightarrow> content)"

definition header_row :: "string list" where
  "header_row = [''id'', ''phone'', ''type'', ''text'', ''datetime'']"

definition header_row_v1 :: "string list" where
  "header_row_v1 = [''id'', ''phone'', ''text'', ''datetime'']"

text \<open>No call of an append on the file fails; the header write only counts when it happens.\<close>

definition append_succeeds :: "env \<Rightarrow> string \<Rightarrow> bool" where
  "append_succeeds e old =
     (open_err e = None \<and> stat_err e = None \<and> (old = [] \<longrightarrow> header_write_err e = None)
      \<and> record_write_err e = None \<and> flush_err e = None)"

subsection \<open>Reading back what the writer wrote\<close>

text \<open>
  What the reader makes of a field: a carriage return that stands directly before a line
  feed is dropped.
\<close>

fun crlf_to_lf :: "string \<Rightarrow> string" where
  "crlf_to_lf [] = []"
| "crlf_to_lf [c] = [c]"
| "crlf_to_lf (c # d # cs) =
     (if c = CR \<and> d = NL then NL # crlf_to_lf cs else c # crlf_to_lf (d # cs))"

text \<open>
  The field loop started on a text rather than on a line and the rest: \<open>pf\<close> at the start
  of a field, \<open>pq\<close> inside a quoted field.
\<close>

definition pf :: "string \<Rightarrow> csv_error + (string list \<times> string)" where
  "pf T = (case readLine T of Some (l, r) \<Rightarrow> parseFields l r | None \<Rightarrow> parseFields [] [])"

definition pq :: "string \<Rightarrow> string \<Rightarrow> csv_error + (string list \<times> string)" where
  "pq acc T = (case readLine T of Some (l, r) \<Rightarrow> parseQuoted acc l r | None \<Rightarrow> parseQuoted acc [] [])"

text \<open>No carriage return in the string stands directly before a line feed.\<close>

fun crlf_free :: "string \<Rightarrow> bool" where
  "crlf_free [] = True"
| "crlf_free [c] = True"
| "crlf_free (c # d # cs) = (\<not> (c = CR \<and> d = NL) \<and> crlf_free (d # cs))"

subsection \<open>Sequences of appends\<close>

text \<open>
  A sequence of appends to the log, each with its own environment: the sender, the type,
  the message text and the time stamp of every call (for the earlier revision: the sender,
  the message text and the time).
\<close>

fun append_all :: "(env \<times> string \<times> string \<times> string \<times> string) list \<Rightarrow> world \<Rightarrow> world" where
  "append_all [] w = w"
| "append_all ((e, sender, messageType, message, timestamp) # calls) w =
     append_all calls (writeToCSV e sender messageType message timestamp w)"

fun append_all_v1 :: "(env \<times> string \<times> string \<times> Time) list \<Rightarrow> world \<Rightarrow> world" where
  "append_all_v1 [] w = w"
| "append_all_v1 ((e, sender, message, timestamp) # calls) w =
     append_all_v1 calls (writeToCSV_v1 e sender message timestamp w)"

text \<open>The record that a call adds when it succeeds.\<close>

definition record_of :: "env \<times> string \<times> string \<times> string \<times> string \<Rightarrow> string list" where
  "record_of call =
     (case call of (e, sender, messageType, message, timestamp) \<Rightarrow>
        [sprint_d (csv_nanos e), sender, messageType, message, timestamp])"

definition record_of_v1 :: "env \<times> string \<times> string \<times> Time \<Rightarrow> string list" where
  "record_of_v1 call =
     (case call of (e, sender, message, timestamp) \<Rightarrow>
        [sprint_d (csv_nanos e), sender, message, Format_RFC3339 timestamp])"

section \<open>Properties\<close>

subsection \<open>Media Store\<close>

lemma saveMedia_result:
  "fst (saveMedia e kind dat w) =
     (case mkdir_err e of
        Some err \<Rightarrow> Inl err
      | None \<Rightarrow>
          (case writefile_err e of
             Some err \<Rightarrow> Inl err
           | None \<Rightarrow> Inr (media_path kind (media_nanos e))))"
  by (simp add: saveMedia_def media_path_def kind_extension_def Let_def
      split: option.splits)

lemma saveMedia_stores:
  "fst (saveMedia e kind dat w) = Inr p \<Longrightarrow>
   media_files (snd (saveMedia e kind dat w)) p = Some dat"
proof (cases "mkdir_err e")
  case None
  note mk = this
  show "fst (saveMedia e kind dat w) = Inr p \<Longrightarrow> ?thesis"
  proof (cases "writefile_err e")
    case None
    assume "fst (saveMedia e kind dat w) = Inr p"
    with mk None show ?thesis
      by (simp add: saveMedia_def Let_def logf_def)
  next
    case (Some err)
    assume "fst (saveMedia e kind dat w) = Inr p"
    with mk Some show ?thesis
      by (simp add: saveMedia_def Let_def)
  qed
next
  case (Some err)
  assume "fst (saveMedia e kind dat w) = Inr p"
  with Some show ?thesis
    by (simp add: saveMedia_def Let_def)
qed

text \<open>
  C9. A media save that succeeds returns the path \<open>media/<kind>/<nanoseconds><extension>\<close>:
  the directory of the kind, the wall-clock reading in nanoseconds in decimal, and the
  extension that the table gives for the kind (\<open>.jpg\<close> for image, \<open>.mp4\<close> for video,
  \<open>.ogg\<close> for audio, \<open>.pdf\<close> for document, none for any other kind). The payload is
  stored under that path, and the path is the same whatever the payload is.
\<close>

theorem saveMedia_path_from_kind_and_clock:
  assumes "fst (saveMedia e kind dat w) = Inr p"
  shows "p = media_path kind (media_nanos e)
       \<and> media_files (snd (saveMedia e kind dat w)) p = Some dat
       \<and> fst (saveMedia e kind dat' w) = Inr p
       \<and> kind_extension ''image'' = Some ''.jpg''
       \<and> kind_extension ''video'' = Some ''.mp4''
       \<and> kind_extension ''audio'' = Some ''.ogg''
       \<and> kind_extension ''document'' = Some ''.pdf''
       \<and> (kind \<notin> {''image'', ''video'', ''audio'', ''document''} \<longrightarrow> kind_extension kind = None)"
proof -
  from assms have "p = media_path kind (media_nanos e)"
    by (simp add: saveMedia_result split: option.splits)
  moreover from assms have "media_files (snd (saveMedia e kind dat w)) p = Some dat"
    by (rule saveMedia_stores)
  moreover from assms have "fst (saveMedia e kind dat' w) = Inr p"
    by (simp add: saveMedia_result)
  moreover have "kind_extension ''image'' = Some ''.jpg''" by (simp add: kind_extension_def)
  moreover have "kind_extension ''video'' = Some ''.mp4''" by (simp add: kind_extension_def)
  moreover have "kind_extension ''audio'' = Some ''.ogg''" by (simp add: kind_extension_def)
  moreover have "kind_extension ''document'' = Some ''.pdf''" by (simp add: kind_extension_def)
  moreover have "kind_extension kind = None"
    if "kind \<notin> {''image'', ''video'', ''audio'', ''document''}"
    using that by (simp add: kind_extension_def)
  ultimately show ?thesis by blast
qed

lemma saveMedia_calm_image:
  "fst (saveMedia calm_env ''image'' ''abc'' fresh_world) = Inr ''media/image/1718000000123456789.jpg''"
  by (simp add: saveMedia_def calm_env_def fresh_world_def Let_def logf_def sprint_d_def digits.simps digit_def)
theorem saveMedia_path_witness:
  "fst (saveMedia calm_env ''image'' ''abc'' fresh_world) = Inr ''media/image/1718000000123456789.jpg''
   \<and> ''media/image/1718000000123456789.jpg'' = media_path ''image'' (media_nanos calm_env)
   \<and> media_files (snd (saveMedia calm_env ''image'' ''abc'' fresh_world)) ''media/image/1718000000123456789.jpg'' = Some ''abc''
   \<and> fst (saveMedia calm_env ''image'' ''a different payload'' fresh_world) = Inr ''media/image/1718000000123456789.jpg''"
  using saveMedia_calm_image
    saveMedia_path_from_kind_and_clock [OF saveMedia_calm_image, of "''a different payload''"]
  by blast

subsection \<open>Effects of an append on the rest of the state\<close>

lemma writeToCSV_client_calls [simp]:
  "client_calls (writeToCSV e sender messageType message timestamp w) = client_calls w"
  by (simp add: writeToCSV_def logf_def Let_def split: option.splits)

lemma writeToCSV_v1_client_calls [simp]:
  "client_calls (writeToCSV_v1 e sender message timestamp w) = client_calls w"
  by (simp add: writeToCSV_v1_def logf_def Let_def split: option.splits)

lemma logf_fields [simp]:
  "csv_file (logf line w) = csv_file w"
  "qrcode_file (logf line w) = qrcode_file w"
  "media_files (logf line w) = media_files w"
  "client_calls (logf line w) = client_calls w"
  "dirs (logf line w) = dirs w"
  "log_lines (logf line w) = log_lines w @ [line]"
  by (simp_all add: logf_def)

subsection \<open>Encoded answers\<close>

lemma c_JSON_string:
  "c_JSON code [(''error'', JString s)] = JSON code [(''error'', JString (toValidUTF8 s))]"
  "c_JSON code [(''status'', JString s)] = JSON code [(''status'', JString (toValidUTF8 s))]"
  "c_JSON code [(''qr_code'', JString s)] = JSON code [(''qr_code'', JString (toValidUTF8 s))]"
  "c_JSON code [(''data'', JRows rows)] = JSON code [(''data'', JRows (map (map toValidUTF8) rows))]"
  by (simp_all add: c_JSON_def json_value_def toValidUTF8_def Let_def)

lemma toValidUTF8_ascii:
  "\<forall>c \<in> set s. (of_char c :: nat) < 128 \<Longrightarrow> toValidUTF8 s = s"
  unfolding toValidUTF8_def by (induction s) (auto simp: Let_def)

lemma required_error_ascii: "toValidUTF8 (required_error ''Text'') = required_error ''Text''"
  by (rule toValidUTF8_ascii) (simp add: required_error_def)

lemma failed_qr_ascii:
  "toValidUTF8 ''Failed to generate QR code'' = ''Failed to generate QR code''"
  by (rule toValidUTF8_ascii) simp

subsection \<open>Sending\<close>

lemma sendMessage_calls:
  "client_calls (snd (sendMessage e jid text w)) =
     client_calls w @
       [CallSendMessage (NewJID jid ''s.whatsapp.net'')
          \<lparr>conversation_field = Some text, extendedTextMessage_field = None,
           imageMessage_field = None, videoMessage_field = None, documentMessage_field = None,
           audioMessage_field = None, contactMessage_field = None,
           locationMessage_field = None\<rparr>]"
  by (simp add: sendMessage_def Let_def split: option.splits)

lemma sendMessage_v1_calls:
  "client_calls (snd (sendMessage_v1 e jid text w)) =
     client_calls w @
       [CallSendMessage (NewJID jid ''s.whatsapp.net'')
          \<lparr>conversation_field = Some text, extendedTextMessage_field = None,
           imageMessage_field = None, videoMessage_field = None, documentMessage_field = None,
           audioMessage_field = None, contactMessage_field = None,
           locationMessage_field = None\<rparr>]"
  by (simp add: sendMessage_v1_def Let_def split: option.splits)

lemma sendMessageHandler_calls:
  "client_calls (snd (sendMessageHandler e body w)) =
     client_calls w @
       (case ShouldBindJSON body of
          Inl err \<Rightarrow> []
        | Inr request \<Rightarrow>
            [CallSendMessage (NewJID (request_JID request) ''s.whatsapp.net'')
               \<lparr>conversation_field = Some (request_Text request),
                extendedTextMessage_field = None, imageMessage_field = None,
                videoMessage_field = None, documentMessage_field = None,
                audioMessage_field = None, contactMessage_field = None,
                locationMessage_field = None\<rparr>])"
proof (cases "ShouldBindJSON body")
  case (Inl err)
  then show ?thesis by (simp add: sendMessageHandler_def)
next
  case (Inr request)
  let ?w1 = "logf (''Received request to send message: {'' @ request_JID request
                   @ '' '' @ request_Text request @ ''}'') w"
  obtain r w2 where s: "sendMessage e (request_JID request) (request_Text request) ?w1 = (r, w2)"
    by (cases "sendMessage e (request_JID request) (request_Text request) ?w1")
  from sendMessage_calls [of e "request_JID request" "request_Text request" ?w1] s
  have "client_calls w2 = client_calls w @
       [CallSendMessage (NewJID (request_JID request) ''s.whatsapp.net'')
          \<lparr>conversation_field = Some (request_Text request), extendedTextMessage_field = None,
           imageMessage_field = None, videoMessage_field = None, documentMessage_field = None,
           audioMessage_field = None, contactMessage_field = None,
           locationMessage_field = None\<rparr>]"
    by simp
  with Inr s show ?thesis
    by (cases r) (simp_all add: sendMessageHandler_def Let_def)
qed

text \<open>
  C10. Every call of \<open>client.SendMessage\<close> that a \<open>POST /send\<close> request causes is addressed
  to the identifier made by \<open>NewJID\<close> from the target string of the request and the server
  \<open>s.whatsapp.net\<close>: its user part is the target string as supplied, its server part is
  \<open>s.whatsapp.net\<close>, whatever the target string is. This holds for \<open>sendMessage\<close> in both
  revisions and for the handler, which makes no other call on the client.
\<close>

theorem send_recipient_on_fixed_server:
  "(\<exists>m. client_calls (snd (sendMessage e jid text w)) =
          client_calls w @
            [CallSendMessage
               \<lparr>User = jid, RawAgent = 0, Device = 0, Integrator = 0, Server = ''s.whatsapp.net''\<rparr> m])
   \<and> (\<exists>m. client_calls (snd (sendMessage_v1 e jid text w)) =
          client_calls w @
            [CallSendMessage
               \<lparr>User = jid, RawAgent = 0, Device = 0, Integrator = 0, Server = ''s.whatsapp.net''\<rparr> m])
   \<and> (\<exists>calls. client_calls (snd (sendMessageHandler e body w)) = client_calls w @ calls
          \<and> (\<forall>c \<in> set calls. \<exists>target m. c = CallSendMessage target m
                 \<and> Server target = ''s.whatsapp.net''
                 \<and> (\<exists>j t. body = Object (Some j) (Some t) \<and> User target = j)))"
proof (intro conjI)
  show "\<exists>m. client_calls (snd (sendMessage e jid text w)) =
          client_calls w @
            [CallSendMessage
               \<lparr>User = jid, RawAgent = 0, Device = 0, Integrator = 0, Server = ''s.whatsapp.net''\<rparr> m]"
    using sendMessage_calls [of e jid "text" w] by (auto simp: NewJID_def)
  show "\<exists>m. client_calls (snd (sendMessage_v1 e jid text w)) =
          client_calls w @
            [CallSendMessage
               \<lparr>User = jid, RawAgent = 0, Device = 0, Integrator = 0, Server = ''s.whatsapp.net''\<rparr> m]"
    using sendMessage_v1_calls [of e jid "text" w] by (auto simp: NewJID_def)
  show "\<exists>calls. client_calls (snd (sendMessageHandler e body w)) = client_calls w @ calls
          \<and> (\<forall>c \<in> set calls. \<exists>target m. c = CallSendMessage target m
                 \<and> Server target = ''s.whatsapp.net''
                 \<and> (\<exists>j t. body = Object (Some j) (Some t) \<and> User target = j))"
  proof (cases "ShouldBindJSON body")
    case (Inl err)
    with sendMessageHandler_calls [of e body w] show ?thesis by simp
  next
    case (Inr request)
    then obtain j t where b: "body = Object (Some j) (Some t)" and j: "request_JID request = j"
      by (cases body) (auto simp: ShouldBindJSON_def Let_def string_value_def
          split: if_splits option.splits)
    from Inr sendMessageHandler_calls [of e body w] b j show ?thesis
      by (simp add: NewJID_def)
  qed
qed

theorem send_recipient_witness:
  "client_calls (snd (sendMessageHandler calm_env
       (Object (Some ''77011234567@g.us'') (Some ''hello'')) fresh_world)) =
     [CallSendMessage
        \<lparr>User = ''77011234567@g.us'', RawAgent = 0, Device = 0, Integrator = 0,
         Server = ''s.whatsapp.net''\<rparr>
        \<lparr>conversation_field = Some ''hello'', extendedTextMessage_field = None,
         imageMessage_field = None, videoMessage_field = None, documentMessage_field = None,
         audioMessage_field = None, contactMessage_field = None,
         locationMessage_field = None\<rparr>]"
proof -
  from send_recipient_on_fixed_server
    [of calm_env "''x''" "''y''" fresh_world "Object (Some ''77011234567@g.us'') (Some ''hello'')"]
  obtain calls where
    "client_calls (snd (sendMessageHandler calm_env
       (Object (Some ''77011234567@g.us'') (Some ''hello'')) fresh_world)) =
     client_calls fresh_world @ calls"
    by blast
  then show ?thesis
    by (simp add: sendMessageHandler_calls ShouldBindJSON_def string_value_def Let_def
        NewJID_def fresh_world_def)
qed

lemma ShouldBindJSON_empty_text:
  "text = None \<or> text = Some '''' \<Longrightarrow>
   ShouldBindJSON (Object jid text) =
     Inl (if string_value jid = '''' then required_error ''JID'' @ [NL] @ required_error ''Text''
          else required_error ''Text'')"
  by (auto simp: ShouldBindJSON_def Let_def string_value_def)

text \<open>
  C5. A \<open>POST /send\<close> request whose \<open>text\<close> member is missing or is the empty string is
  answered with status 400 and the text of the binding error. The handler then returns
  at once: it makes no call on the protocol client, and the log file, the media files and
  the login-code file are what they were before the request.
\<close>

theorem send_with_empty_text_is_rejected:
  assumes "text = None \<or> text = Some ''''"
  shows "(\<exists>err. fst (sendMessageHandler e (Object jid text) w) = JSON 400 [(''error'', JString err)])
       \<and> client_calls (snd (sendMessageHandler e (Object jid text) w)) = client_calls w
       \<and> csv_file (snd (sendMessageHandler e (Object jid text) w)) = csv_file w
       \<and> media_files (snd (sendMessageHandler e (Object jid text) w)) = media_files w
       \<and> qrcode_file (snd (sendMessageHandler e (Object jid text) w)) = qrcode_file w"
  using ShouldBindJSON_empty_text [OF assms, of jid]
  by (simp add: sendMessageHandler_def c_JSON_string)

theorem send_with_empty_text_witness:
  "fst (sendMessageHandler calm_env (Object (Some ''77011234567'') (Some '''')) fresh_world) =
     JSON 400 [(''error'', JString (required_error ''Text''))]
   \<and> client_calls (snd (sendMessageHandler calm_env (Object (Some ''77011234567'') (Some ''''))
         fresh_world)) = []
   \<and> csv_file (snd (sendMessageHandler calm_env (Object (Some ''77011234567'') (Some ''''))
         fresh_world)) = None"
proof -
  have "Some '''' = None \<or> Some '''' = Some ('''' :: string)" by simp
  from send_with_empty_text_is_rejected [OF this, of calm_env "Some ''77011234567''" fresh_world]
  show ?thesis
    by (simp add: sendMessageHandler_def ShouldBindJSON_def Let_def string_value_def
        fresh_world_def c_JSON_string required_error_ascii)
qed

subsection \<open>The login code\<close>

lemma saveQRCode_file:
  "create_err e = None \<Longrightarrow> writestring_err e = None \<Longrightarrow>
   qrcode_file (saveQRCode e code w) = Some code"
  by (simp add: saveQRCode_def Let_def)

text \<open>
  C6, as the program has it. When the file can be created and written, saving a login
  code leaves exactly that code in the code file, whatever the file held before; so a
  second save replaces the first code. \<open>GET /qr/text\<close> then answers with the saved code
  as the JSON encoder writes it: every byte that is not part of well-formed UTF-8 is
  replaced by U+FFFD, so the code comes back byte for byte exactly when it is well-formed
  UTF-8. \<open>GET /qr/photo\<close> answers with content type \<open>image/png\<close> and the picture of the
  code drawn at the fixed size 256 (the library draws a square of that many pixels on
  each side) when the code is not empty, the barcode library can encode it and the
  picture can be encoded; for the empty code it answers with status 500.
\<close>

theorem login_code_replaced_and_served:
  assumes "create_err e = None" and "writestring_err e = None"
  shows "qrcode_file (saveQRCode e code w) = Some code
       \<and> qrcode_file (saveQRCode e code (saveQRCode e' earlier w)) = Some code
       \<and> generateQRTextHandler (saveQRCode e code w) =
            (JSON 200 [(''qr_code'', JString (toValidUTF8 code))], saveQRCode e code w)
       \<and> (valid_utf8 code \<longrightarrow>
            generateQRTextHandler (saveQRCode e code w) =
              (JSON 200 [(''qr_code'', JString code)], saveQRCode e code w))
       \<and> (code \<noteq> [] \<and> qr_new_err e'' code = None \<and> png_encode_err e'' = None \<longrightarrow>
            generateQRPhotoHandler e'' (saveQRCode e code w) =
              (PNG ''image/png''
                 \<lparr>barcode_content = code, barcode_level = Medium, barcode_size = 256\<rparr>,
               saveQRCode e code w))
       \<and> (code = [] \<longrightarrow>
            fst (generateQRPhotoHandler e'' (saveQRCode e code w)) =
              JSON 500 [(''error'', JString ''Failed to generate QR code'')])"
proof -
  note f = saveQRCode_file [OF assms, of code w]
  have t: "generateQRTextHandler (saveQRCode e code w) =
            (JSON 200 [(''qr_code'', JString (toValidUTF8 code))], saveQRCode e code w)"
    using f by (simp add: generateQRTextHandler_def c_JSON_string)
  have p: "generateQRPhotoHandler e'' (saveQRCode e code w) =
      (case qrcode_New e'' code of
         Some err \<Rightarrow>
           (JSON 500 [(''error'', JString ''Failed to generate QR code'')],
            logf (''Failed to generate QR code image: '' @ err) (saveQRCode e code w))
       | None \<Rightarrow>
           (case png_encode_err e'' of
              Some err \<Rightarrow>
                (JSON 500 [(''error'', JString ''Failed to generate QR code'')],
                 logf (''Failed to encode QR code image: '' @ err) (saveQRCode e code w))
            | None \<Rightarrow>
                (PNG ''image/png''
                   \<lparr>barcode_content = code, barcode_level = Medium, barcode_size = 256\<rparr>,
                 saveQRCode e code w)))"
    using f
    by (simp add: generateQRPhotoHandler_def c_JSON_string failed_qr_ascii split: option.splits)
  have "valid_utf8 code \<longrightarrow>
            generateQRTextHandler (saveQRCode e code w) =
              (JSON 200 [(''qr_code'', JString code)], saveQRCode e code w)"
    using t by (simp add: valid_utf8_def)
  moreover have "code \<noteq> [] \<and> qr_new_err e'' code = None \<and> png_encode_err e'' = None \<longrightarrow>
            generateQRPhotoHandler e'' (saveQRCode e code w) =
              (PNG ''image/png''
                 \<lparr>barcode_content = code, barcode_level = Medium, barcode_size = 256\<rparr>,
               saveQRCode e code w)"
    by (simp add: p qrcode_New_def)
  moreover have "code = [] \<longrightarrow>
            fst (generateQRPhotoHandler e'' (saveQRCode e code w)) =
              JSON 500 [(''error'', JString ''Failed to generate QR code'')]"
    unfolding p by (simp add: qrcode_New_def)
  moreover note f t saveQRCode_file [OF assms, of code "saveQRCode e' earlier w"]
  ultimately show ?thesis by blast
qed

lemma login_code_ascii: "valid_utf8 ''2@abc,def,ghi''"
  unfolding valid_utf8_def by (rule toValidUTF8_ascii) simp

theorem login_code_witness:
  "qrcode_file (saveQRCode calm_env ''2@abc,def,ghi'' (fresh_world\<lparr>qrcode_file := Some ''old''\<rparr>))
     = Some ''2@abc,def,ghi''
   \<and> valid_utf8 ''2@abc,def,ghi''
   \<and> fst (generateQRTextHandler (saveQRCode calm_env ''2@abc,def,ghi''
              (fresh_world\<lparr>qrcode_file := Some ''old''\<rparr>))) =
       JSON 200 [(''qr_code'', JString ''2@abc,def,ghi'')]
   \<and> fst (generateQRPhotoHandler calm_env (saveQRCode calm_env ''2@abc,def,ghi''
              (fresh_world\<lparr>qrcode_file := Some ''old''\<rparr>))) =
       PNG ''image/png''
         \<lparr>barcode_content = ''2@abc,def,ghi'', barcode_level = Medium, barcode_size = 256\<rparr>"
proof -
  have c: "create_err calm_env = None" and s: "writestring_err calm_env = None"
    and q: "''2@abc,def,ghi'' \<noteq> [] \<and> qr_new_err calm_env ''2@abc,def,ghi'' = None
            \<and> png_encode_err calm_env = None"
    by (simp_all add: calm_env_def)
  from login_code_replaced_and_served
    [OF c s, of "''2@abc,def,ghi''" "fresh_world\<lparr>qrcode_file := Some ''old''\<rparr>"
       calm_env "''x''" calm_env] q login_code_ascii
  show ?thesis by (simp add: valid_utf8_def)
qed

text \<open>
  Two codes for which the answers are not the ones claimed: a code with a byte that is
  not UTF-8 comes back from \<open>GET /qr/text\<close> with that byte replaced, and the empty code
  gets no picture from \<open>GET /qr/photo\<close>.
\<close>

theorem login_code_not_served_as_saved:
  "qrcode_file (saveQRCode calm_env [CHR 0xFF, CHR 0x2C, CHR 0x61] fresh_world) =
     Some [CHR 0xFF, CHR 0x2C, CHR 0x61]
   \<and> fst (generateQRTextHandler (saveQRCode calm_env [CHR 0xFF, CHR 0x2C, CHR 0x61] fresh_world)) =
       JSON 200 [(''qr_code'', JString [CHR 0xEF, CHR 0xBF, CHR 0xBD, CHR 0x2C, CHR 0x61])]
   \<and> qrcode_file (saveQRCode calm_env [] fresh_world) = Some []
   \<and> fst (generateQRPhotoHandler calm_env (saveQRCode calm_env [] fresh_world)) =
       JSON 500 [(''error'', JString ''Failed to generate QR code'')]"
proof -
  have c: "create_err calm_env = None" and s: "writestring_err calm_env = None"
    by (simp_all add: calm_env_def)
  have u: "toValidUTF8 [CHR 0xFF, CHR 0x2C, CHR 0x61] = [CHR 0xEF, CHR 0xBF, CHR 0xBD, CHR 0x2C, CHR 0x61]"
    by (simp add: toValidUTF8_def Let_def)
  from saveQRCode_file [OF c s, of "[CHR 0xFF, CHR 0x2C, CHR 0x61]" fresh_world]
    saveQRCode_file [OF c s, of "[]" fresh_world]
  show ?thesis
    by (simp add: generateQRTextHandler_def generateQRPhotoHandler_def qrcode_New_def
        c_JSON_string u failed_qr_ascii)
qed

subsection \<open>The inbound handler\<close>

lemma csv_content_simps [simp]:
  "csv_content (logf line w) = csv_content w"
  "csv_content (w\<lparr>client_calls := cs\<rparr>) = csv_content w"
  "csv_content (w\<lparr>dirs := ds\<rparr>) = csv_content w"
  "csv_content (w\<lparr>media_files := fs\<rparr>) = csv_content w"
  "csv_content (w\<lparr>log_lines := ls\<rparr>) = csv_content w"
  by (simp_all add: csv_content_def)

lemma writeToCSV_content:
  "csv_content (writeToCSV e sender messageType message timestamp w) =
     (if append_succeeds e (csv_content w)
      then csv_content w @ (if csv_content w = [] then csv_Write header_row else [])
           @ csv_Write [sprint_d (csv_nanos e), sender, messageType, message, timestamp]
      else csv_content w)"
  by (auto simp: writeToCSV_def csv_content_def append_succeeds_def header_row_def Let_def
      split: option.splits)

lemma classify_simps:
  "GetConversation m \<noteq> '''' \<Longrightarrow> classify m = Text"
  "GetConversation m = '''' \<Longrightarrow> GetExtendedTextMessage m = Some x1 \<Longrightarrow> classify m = ExtendedText"
  "GetConversation m = '''' \<Longrightarrow> GetExtendedTextMessage m = None \<Longrightarrow> GetImageMessage m = Some x2
     \<Longrightarrow> classify m = Image"
  "GetConversation m = '''' \<Longrightarrow> GetExtendedTextMessage m = None \<Longrightarrow> GetImageMessage m = None
     \<Longrightarrow> GetVideoMessage m = Some x3 \<Longrightarrow> classify m = Video"
  "GetConversation m = '''' \<Longrightarrow> GetExtendedTextMessage m = None \<Longrightarrow> GetImageMessage m = None
     \<Longrightarrow> GetVideoMessage m = None \<Longrightarrow> GetDocumentMessage m = Some x4 \<Longrightarrow> classify m = Document"
  "GetConversation m = '''' \<Longrightarrow> GetExtendedTextMessage m = None \<Longrightarrow> GetImageMessage m = None
     \<Longrightarrow> GetVideoMessage m = None \<Longrightarrow> GetDocumentMessage m = None
     \<Longrightarrow> GetAudioMessage m = Some x5 \<Longrightarrow> classify m = Audio"
  "GetConversation m = '''' \<Longrightarrow> GetExtendedTextMessage m = None \<Longrightarrow> GetImageMessage m = None
     \<Longrightarrow> GetVideoMessage m = None \<Longrightarrow> GetDocumentMessage m = None
     \<Longrightarrow> GetAudioMessage m = None \<Longrightarrow> GetContactMessage m = Some x6 \<Longrightarrow> classify m = Contact"
  "GetConversation m = '''' \<Longrightarrow> GetExtendedTextMessage m = None \<Longrightarrow> GetImageMessage m = None
     \<Longrightarrow> GetVideoMessage m = None \<Longrightarrow> GetDocumentMessage m = None
     \<Longrightarrow> GetAudioMessage m = None \<Longrightarrow> GetContactMessage m = None
     \<Longrightarrow> GetLocationMessage m = Some x7 \<Longrightarrow> classify m = Location"
  "GetConversation m = '''' \<Longrightarrow> GetExtendedTextMessage m = None \<Longrightarrow> GetImageMessage m = None
     \<Longrightarrow> GetVideoMessage m = None \<Longrightarrow> GetDocumentMessage m = None
     \<Longrightarrow> GetAudioMessage m = None \<Longrightarrow> GetContactMessage m = None
     \<Longrightarrow> GetLocationMessage m = None \<Longrightarrow> classify m = Unknown"
  by (simp_all add: classify_def precedence_def)

lemma saveMedia_snd [simp]:
  "csv_content (snd (saveMedia e k d w)) = csv_content w"
  "client_calls (snd (saveMedia e k d w)) = client_calls w"
  by (simp_all add: saveMedia_def Let_def split: option.splits)

lemma saveMedia_fails:
  "mkdir_err e \<noteq> None \<or> writefile_err e \<noteq> None \<Longrightarrow> \<exists>err. fst (saveMedia e k d w) = Inl err"
  by (auto simp: saveMedia_result split: option.splits)

lemma saveMedia_succeeds:
  "mkdir_err e = None \<Longrightarrow> writefile_err e = None \<Longrightarrow>
   fst (saveMedia e k d w) = Inr (media_path k (media_nanos e))"
  by (simp add: saveMedia_result)

lemma handled_text:
  assumes "GetConversation (Message ev) \<noteq> ''''"
  shows "csv_content (handleReceivedMessage e ev w) =
     (if media_stored e (Message ev) \<and> append_succeeds e (csv_content w)
      then csv_content w @ (if csv_content w = [] then csv_Write header_row else [])
           @ csv_Write [sprint_d (csv_nanos e), JID_String (Info_Sender ev),
                        type_name (classify (Message ev)), payload_summary e (Message ev),
                        Format_RFC3339 (Info_Timestamp ev)]
      else csv_content w)
    \<and> client_calls (handleReceivedMessage e ev w) =
        client_calls w @ (case media_of (Message ev) of None \<Rightarrow> [] | Some d \<Rightarrow> [CallDownload d])"
  using assms classify_simps(1) [OF assms]
  by (simp add: handleReceivedMessage_def Let_def media_stored_def media_of_def
      writeToCSV_content payload_summary_def type_name_def)

lemma handled_extended:
  assumes "GetConversation (Message ev) = ''''"
    and "GetExtendedTextMessage (Message ev) = Some x"
  shows "csv_content (handleReceivedMessage e ev w) =
     (if media_stored e (Message ev) \<and> append_succeeds e (csv_content w)
      then csv_content w @ (if csv_content w = [] then csv_Write header_row else [])
           @ csv_Write [sprint_d (csv_nanos e), JID_String (Info_Sender ev),
                        type_name (classify (Message ev)), payload_summary e (Message ev),
                        Format_RFC3339 (Info_Timestamp ev)]
      else csv_content w)
    \<and> client_calls (handleReceivedMessage e ev w) =
        client_calls w @ (case media_of (Message ev) of None \<Rightarrow> [] | Some d \<Rightarrow> [CallDownload d])"
  using assms classify_simps(2) [OF assms]
  by (simp add: handleReceivedMessage_def Let_def media_stored_def media_of_def
      writeToCSV_content payload_summary_def type_name_def)

lemma handled_contact:
  assumes "GetConversation (Message ev) = ''''"
    and "GetExtendedTextMessage (Message ev) = None"
    and "GetImageMessage (Message ev) = None"
    and "GetVideoMessage (Message ev) = None"
    and "GetDocumentMessage (Message ev) = None"
    and "GetAudioMessage (Message ev) = None"
    and "GetContactMessage (Message ev) = Some x"
  shows "csv_content (handleReceivedMessage e ev w) =
     (if media_stored e (Message ev) \<and> append_succeeds e (csv_content w)
      then csv_content w @ (if csv_content w = [] then csv_Write header_row else [])
           @ csv_Write [sprint_d (csv_nanos e), JID_String (Info_Sender ev),
                        type_name (classify (Message ev)), payload_summary e (Message ev),
                        Format_RFC3339 (Info_Timestamp ev)]
      else csv_content w)
    \<and> client_calls (handleReceivedMessage e ev w) =
        client_calls w @ (case media_of (Message ev) of None \<Rightarrow> [] | Some d \<Rightarrow> [CallDownload d])"
  using assms classify_simps(7) [OF assms]
  by (simp add: handleReceivedMessage_def Let_def media_stored_def media_of_def
      writeToCSV_content payload_summary_def type_name_def)

lemma handled_location:
  assumes "GetConversation (Message ev) = ''''"
    and "GetExtendedTextMessage (Message ev) = None"
    and "GetImageMessage (Message ev) = None"
    and "GetVideoMessage (Message ev) = None"
    and "GetDocumentMessage (Message ev) = None"
    and "GetAudioMessage (Message ev) = None"
    and "GetContactMessage (Message ev) = None"
    and "GetLocationMessage (Message ev) = Some x"
  shows "csv_content (handleReceivedMessage e ev w) =
     (if media_stored e (Message ev) \<and> append_succeeds e (csv_content w)
      then csv_content w @ (if csv_content w = [] then csv_Write header_row else [])
           @ csv_Write [sprint_d (csv_nanos e), JID_String (Info_Sender ev),
                        type_name (classify (Message ev)), payload_summary e (Message ev),
                        Format_RFC3339 (Info_Timestamp ev)]
      else csv_content w)
    \<and> client_calls (handleReceivedMessage e ev w) =
        client_calls w @ (case media_of (Message ev) of None \<Rightarrow> [] | Some d \<Rightarrow> [CallDownload d])"
  using assms classify_simps(8) [OF assms]
  by (simp add: handleReceivedMessage_def Let_def media_stored_def media_of_def
      writeToCSV_content payload_summary_def type_name_def)

lemma handled_unknown:
  assumes "GetConversation (Message ev) = ''''"
    and "GetExtendedTextMessage (Message ev) = None"
    and "GetImageMessage (Message ev) = None"
    and "GetVideoMessage (Message ev) = None"
    and "GetDocumentMessage (Message ev) = None"
    and "GetAudioMessage (Message ev) = None"
    and "GetContactMessage (Message ev) = None"
    and "GetLocationMessage (Message ev) = None"
  shows "csv_content (handleReceivedMessage e ev w) =
     (if media_stored e (Message ev) \<and> append_succeeds e (csv_content w)
      then csv_content w @ (if csv_content w = [] then csv_Write header_row else [])
           @ csv_Write [sprint_d (csv_nanos e), JID_String (Info_Sender ev),
                        type_name (classify (Message ev)), payload_summary e (Message ev),
                        Format_RFC3339 (Info_Timestamp ev)]
      else csv_content w)
    \<and> client_calls (handleReceivedMessage e ev w) =
        client_calls w @ (case media_of (Message ev) of None \<Rightarrow> [] | Some d \<Rightarrow> [CallDownload d])"
  using assms classify_simps(9) [OF assms]
  by (simp add: handleReceivedMessage_def Let_def media_stored_def media_of_def
      writeToCSV_content payload_summary_def type_name_def)

lemma handled_image:
  assumes "GetConversation (Message ev) = ''''"
    and "GetExtendedTextMessage (Message ev) = None"
    and "GetImageMessage (Message ev) = Some x"
  shows "csv_content (handleReceivedMessage e ev w) =
     (if media_stored e (Message ev) \<and> append_succeeds e (csv_content w)
      then csv_content w @ (if csv_content w = [] then csv_Write header_row else [])
           @ csv_Write [sprint_d (csv_nanos e), JID_String (Info_Sender ev),
                        type_name (classify (Message ev)), payload_summary e (Message ev),
                        Format_RFC3339 (Info_Timestamp ev)]
      else csv_content w)
    \<and> client_calls (handleReceivedMessage e ev w) =
        client_calls w @ (case media_of (Message ev) of None \<Rightarrow> [] | Some d \<Rightarrow> [CallDownload d])"
proof -
  note k = classify_simps(3) [OF assms]
  show ?thesis
  proof (cases "download e (DownloadImage x)")
    case (Inl err)
    with assms k show ?thesis
      by (simp add: handleReceivedMessage_def Let_def client_Download_def media_stored_def
          media_of_def)
  next
    case (Inr dat)
    show ?thesis
    proof (cases "mkdir_err e = None \<and> writefile_err e = None")
      case True
      with assms k Inr show ?thesis
        by (simp add: handleReceivedMessage_def Let_def client_Download_def media_stored_def
            media_of_def writeToCSV_content payload_summary_def type_name_def case_prod_beta
            saveMedia_succeeds)
    next
      case False
      then have "mkdir_err e \<noteq> None \<or> writefile_err e \<noteq> None" by simp
      from saveMedia_fails [OF this] obtain err where
        "fst (saveMedia e ''image'' dat
           (logf ''Received an image message''
              (logf (''Received message from '' @ JID_String (Info_Sender ev) @ '' at ''
                     @ Format_RFC3339 (Info_Timestamp ev)) w
               \<lparr>client_calls := client_calls w @ [CallDownload (DownloadImage x)]\<rparr>))) = Inl err"
        by blast
      with assms k Inr False show ?thesis
        by (auto simp add: handleReceivedMessage_def Let_def client_Download_def media_stored_def
            media_of_def case_prod_beta)
    qed
  qed
qed

lemma handled_video:
  assumes "GetConversation (Message ev) = ''''"
    and "GetExtendedTextMessage (Message ev) = None"
    and "GetImageMessage (Message ev) = None"
    and "GetVideoMessage (Message ev) = Some x"
  shows "csv_content (handleReceivedMessage e ev w) =
     (if media_stored e (Message ev) \<and> append_succeeds e (csv_content w)
      then csv_content w @ (if csv_content w = [] then csv_Write header_row else [])
           @ csv_Write [sprint_d (csv_nanos e), JID_String (Info_Sender ev),
                        type_name (classify (Message ev)), payload_summary e (Message ev),
                        Format_RFC3339 (Info_Timestamp ev)]
      else csv_content w)
    \<and> client_calls (handleReceivedMessage e ev w) =
        client_calls w @ (case media_of (Message ev) of None \<Rightarrow> [] | Some d \<Rightarrow> [CallDownload d])"
proof -
  note k = classify_simps(4) [OF assms]
  show ?thesis
  proof (cases "download e (DownloadVideo x)")
    case (Inl err)
    with assms k show ?thesis
      by (simp add: handleReceivedMessage_def Let_def client_Download_def media_stored_def
          media_of_def)
  next
    case (Inr dat)
    show ?thesis
    proof (cases "mkdir_err e = None \<and> writefile_err e = None")
      case True
      with assms k Inr show ?thesis
        by (simp add: handleReceivedMessage_def Let_def client_Download_def media_stored_def
            media_of_def writeToCSV_content payload_summary_def type_name_def case_prod_beta
            saveMedia_succeeds)
    next
      case False
      then have "mkdir_err e \<noteq> None \<or> writefile_err e \<noteq> None" by simp
      from saveMedia_fails [OF this] obtain err where
        "fst (saveMedia e ''video'' dat
           (logf ''Received a video message''
              (logf (''Received message from '' @ JID_String (Info_Sender ev) @ '' at ''
                     @ Format_RFC3339 (Info_Timestamp ev)) w
               \<lparr>client_calls := client_calls w @ [CallDownload (DownloadVideo x)]\<rparr>))) = Inl err"
        by blast
      with assms k Inr False show ?thesis
        by (auto simp add: handleReceivedMessage_def Let_def client_Download_def media_stored_def
            media_of_def case_prod_beta)
    qed
  qed
qed

lemma handled_document:
  assumes "GetConversation (Message ev) = ''''"
    and "GetExtendedTextMessage (Message ev) = None"
    and "GetImageMessage (Message ev) = None"
    and "GetVideoMessage (Message ev) = None"
    and "GetDocumentMessage (Message ev) = Some x"
  shows "csv_content (handleReceivedMessage e ev w) =
     (if media_stored e (Message ev) \<and> append_succeeds e (csv_content w)
      then csv_content w @ (if csv_content w = [] then csv_Write header_row else [])
           @ csv_Write [sprint_d (csv_nanos e), JID_String (Info_Sender ev),
                        type_name (classify (Message ev)), payload_summary e (Message ev),
                        Format_RFC3339 (Info_Timestamp ev)]
      else csv_content w)
    \<and> client_calls (handleReceivedMessage e ev w) =
        client_calls w @ (case media_of (Message ev) of None \<Rightarrow> [] | Some d \<Rightarrow> [CallDownload d])"
proof -
  note k = classify_simps(5) [OF assms]
  show ?thesis
  proof (cases "download e (DownloadDocument x)")
    case (Inl err)
    with assms k show ?thesis
      by (simp add: handleReceivedMessage_def Let_def client_Download_def media_stored_def
          media_of_def)
  next
    case (Inr dat)
    show ?thesis
    proof (cases "mkdir_err e = None \<and> writefile_err e = None")
      case True
      with assms k Inr show ?thesis
        by (simp add: handleReceivedMessage_def Let_def client_Download_def media_stored_def
            media_of_def writeToCSV_content payload_summary_def type_name_def case_prod_beta
            saveMedia_succeeds)
    next
      case False
      then have "mkdir_err e \<noteq> None \<or> writefile_err e \<noteq> None" by simp
      from saveMedia_fails [OF this] obtain err where
        "fst (saveMedia e ''document'' dat
           (logf ''Received a document message''
              (logf (''Received message from '' @ JID_String (Info_Sender ev) @ '' at ''
                     @ Format_RFC3339 (Info_Timestamp ev)) w
               \<lparr>client_calls := client_calls w @ [CallDownload (DownloadDocument x)]\<rparr>))) = Inl err"
        by blast
      with assms k Inr False show ?thesis
        by (auto simp add: handleReceivedMessage_def Let_def client_Download_def media_stored_def
            media_of_def case_prod_beta)
    qed
  qed
qed

lemma handled_audio:
  assumes "GetConversation (Message ev) = ''''"
    and "GetExtendedTextMessage (Message ev) = None"
    and "GetImageMessage (Message ev) = None"
    and "GetVideoMessage (Message ev) = None"
    and "GetDocumentMessage (Message ev) = None"
    and "GetAudioMessage (Message ev) = Some x"
  shows "csv_content (handleReceivedMessage e ev w) =
     (if media_stored e (Message ev) \<and> append_succeeds e (csv_content w)
      then csv_content w @ (if csv_content w = [] then csv_Write header_row else [])
           @ csv_Write [sprint_d (csv_nanos e), JID_String (Info_Sender ev),
                        type_name (classify (Message ev)), payload_summary e (Message ev),
                        Format_RFC3339 (Info_Timestamp ev)]
      else csv_content w)
    \<and> client_calls (handleReceivedMessage e ev w) =
        client_calls w @ (case media_of (Message ev) of None \<Rightarrow> [] | Some d \<Rightarrow> [CallDownload d])"
proof -
  note k = classify_simps(6) [OF assms]
  show ?thesis
  proof (cases "download e (DownloadAudio x)")
    case (Inl err)
    with assms k show ?thesis
      by (simp add: handleReceivedMessage_def Let_def client_Download_def media_stored_def
          media_of_def)
  next
    case (Inr dat)
    show ?thesis
    proof (cases "mkdir_err e = None \<and> writefile_err e = None")
      case True
      with assms k Inr show ?thesis
        by (simp add: handleReceivedMessage_def Let_def client_Download_def media_stored_def
            media_of_def writeToCSV_content payload_summary_def type_name_def case_prod_beta
            saveMedia_succeeds)
    next
      case False
      then have "mkdir_err e \<noteq> None \<or> writefile_err e \<noteq> None" by simp
      from saveMedia_fails [OF this] obtain err where
        "fst (saveMedia e ''audio'' dat
           (logf ''Received an audio message''
              (logf (''Received message from '' @ JID_String (Info_Sender ev) @ '' at ''
                     @ Format_RFC3339 (Info_Timestamp ev)) w
               \<lparr>client_calls := client_calls w @ [CallDownload (DownloadAudio x)]\<rparr>))) = Inl err"
        by blast
      with assms k Inr False show ?thesis
        by (auto simp add: handleReceivedMessage_def Let_def client_Download_def media_stored_def
            media_of_def case_prod_beta)
    qed
  qed
qed

lemma handleReceivedMessage_effect:
  "csv_content (handleReceivedMessage e ev w) =
     (if media_stored e (Message ev) \<and> append_succeeds e (csv_content w)
      then csv_content w @ (if csv_content w = [] then csv_Write header_row else [])
           @ csv_Write [sprint_d (csv_nanos e), JID_String (Info_Sender ev),
                        type_name (classify (Message ev)), payload_summary e (Message ev),
                        Format_RFC3339 (Info_Timestamp ev)]
      else csv_content w)
    \<and> client_calls (handleReceivedMessage e ev w) =
        client_calls w @ (case media_of (Message ev) of None \<Rightarrow> [] | Some d \<Rightarrow> [CallDownload d])"
proof (cases "GetConversation (Message ev) = ''''")
  case False
  then show ?thesis by (rule handled_text)
next
  case c: True
  show ?thesis
  proof (cases "GetExtendedTextMessage (Message ev)")
    case (Some x)
    with c show ?thesis by (rule handled_extended)
  next
    case x: None
    show ?thesis
    proof (cases "GetImageMessage (Message ev)")
      case (Some x)
      with c x show ?thesis by (rule handled_image)
    next
      case i: None
      show ?thesis
      proof (cases "GetVideoMessage (Message ev)")
        case (Some x)
        with c x i show ?thesis by (rule handled_video)
      next
        case v: None
        show ?thesis
        proof (cases "GetDocumentMessage (Message ev)")
          case (Some x)
          with c x i v show ?thesis by (rule handled_document)
        next
          case d: None
          show ?thesis
          proof (cases "GetAudioMessage (Message ev)")
            case (Some x)
            with c x i v d show ?thesis by (rule handled_audio)
          next
            case a: None
            show ?thesis
            proof (cases "GetContactMessage (Message ev)")
              case (Some x)
              with c x i v d a show ?thesis by (rule handled_contact)
            next
              case n: None
              show ?thesis
              proof (cases "GetLocationMessage (Message ev)")
                case (Some x)
                with c x i v d a n show ?thesis by (rule handled_location)
              next
                case None
                with c x i v d a n show ?thesis by (rule handled_unknown)
              qed
            qed
          qed
        qed
      qed
    qed
  qed
qed

subsection \<open>Auxiliary facts and evaluations\<close>

lemma Format_RFC3339_nonempty: "Format_RFC3339 t \<noteq> []"
  by (simp add: Format_RFC3339_def)

lemma JID_String_empty_iff:
  "JID_String jid = [] \<longleftrightarrow> RawAgent jid = 0 \<and> Device jid = 0 \<and> User jid = [] \<and> Server jid = []"
  by (auto simp: JID_String_def)

lemma classify_first_match:
  assumes "i < length precedence" and "snd (precedence ! i) m"
    and "\<forall>j<i. \<not> snd (precedence ! j) m"
  shows "classify m = fst (precedence ! i)"
proof -
  have "find (\<lambda>(k, p). p m) precedence = Some (precedence ! i)"
    unfolding find_Some_iff using assms by (auto simp: case_prod_beta)
  then show ?thesis by (simp add: classify_def case_prod_beta split: prod.splits)
qed

lemma classify_no_match:
  assumes "\<forall>i<length precedence. \<not> snd (precedence ! i) m"
  shows "classify m = Unknown"
proof -
  have "find (\<lambda>(k, p). p m) precedence = None"
    unfolding find_None_iff using assms by (auto simp: case_prod_beta in_set_conv_nth)
  then show ?thesis by (simp add: classify_def)
qed

lemma inj_type_name: "inj type_name"
  by (rule injI) (auto simp: type_name_def split: kind.splits)

lemma noon_text: "Format_RFC3339 noon = ''2024-06-10T12:00:05Z''"
  by (simp add: Format_RFC3339_def noon_def pad_def digits.simps digit_def)

lemma alice_text: "JID_String alice = ''77011234567@s.whatsapp.net''"
  by (simp add: JID_String_def alice_def NewJID_def)

lemma calm_nanos:
  "sprint_d (csv_nanos calm_env) = ''1718000000223456789''"
  "sprint_d (media_nanos calm_env) = ''1718000000123456789''"
  by (simp_all add: calm_env_def sprint_d_def digits.simps digit_def)

lemma calm_append: "append_succeeds calm_env old"
  by (simp add: append_succeeds_def calm_env_def)

lemma fresh_content: "csv_content fresh_world = []"
  by (simp add: csv_content_def fresh_world_def)

lemma image_and_video_kind: "classify (Message image_and_video_event) = Image"
  by (simp add: classify_def precedence_def image_and_video_event_def no_content_def
      GetConversation_def GetExtendedTextMessage_def GetImageMessage_def string_value_def)

subsection \<open>Classification\<close>

lemma classify_media:
  assumes "is_media (classify m)"
  shows "\<exists>d. media_of m = Some d"
proof -
  from assms have "classify m \<noteq> Unknown" by (auto simp: is_media_def)
  then obtain k p where f: "find (\<lambda>(k, p). p m) precedence = Some (k, p)"
    by (cases "find (\<lambda>(k, p). p m) precedence") (auto simp: classify_def)
  then have k: "classify m = k" by (simp add: classify_def)
  from f obtain i where "i < length precedence" and "precedence ! i = (k, p)" and "p m"
    by (auto simp: find_Some_iff)
  then have "(k, p) \<in> set precedence" and "p m"
    using nth_mem [of i precedence] by simp_all
  with assms k show ?thesis
    by (auto simp: precedence_def is_media_def media_of_def)
qed

text \<open>
  C1. The specification's classifier \<open>classify\<close> goes through the predicates in the order
  Text, ExtendedText, Image, Video, Document, Audio, Contact, Location and takes the kind
  of the first one that holds, so a message that satisfies two predicates gets the
  earlier kind; a message that satisfies none is Unknown. The handler of the program
  agrees with it on every message: whatever the environment does, the handler either
  leaves the log as it is or appends exactly one record, and that record carries the type
  name of \<open>classify\<close>'s kind (distinct kinds have distinct type names). When the media
  steps and the append succeed, the record is appended.
\<close>

theorem classifier_assigns_first_matching_kind:
  "map fst precedence = [Text, ExtendedText, Image, Video, Document, Audio, Contact, Location]
   \<and> (\<forall>i<length precedence.
         snd (precedence ! i) (Message ev) \<and> (\<forall>j<i. \<not> snd (precedence ! j) (Message ev))
         \<longrightarrow> classify (Message ev) = fst (precedence ! i))
   \<and> ((\<forall>i<length precedence. \<not> snd (precedence ! i) (Message ev))
         \<longrightarrow> classify (Message ev) = Unknown)
   \<and> inj type_name
   \<and> (csv_content (handleReceivedMessage e ev w) = csv_content w
       \<or> csv_content (handleReceivedMessage e ev w) =
           csv_content w @ (if csv_content w = [] then csv_Write header_row else [])
           @ csv_Write [sprint_d (csv_nanos e), JID_String (Info_Sender ev),
                        type_name (classify (Message ev)), payload_summary e (Message ev),
                        Format_RFC3339 (Info_Timestamp ev)])
   \<and> (media_stored e (Message ev) \<and> append_succeeds e (csv_content w) \<longrightarrow>
         csv_content (handleReceivedMessage e ev w) =
           csv_content w @ (if csv_content w = [] then csv_Write header_row else [])
           @ csv_Write [sprint_d (csv_nanos e), JID_String (Info_Sender ev),
                        type_name (classify (Message ev)), payload_summary e (Message ev),
                        Format_RFC3339 (Info_Timestamp ev)])"
proof (intro conjI)
  show "map fst precedence = [Text, ExtendedText, Image, Video, Document, Audio, Contact, Location]"
    by (simp add: precedence_def)
  show "\<forall>i<length precedence.
         snd (precedence ! i) (Message ev) \<and> (\<forall>j<i. \<not> snd (precedence ! j) (Message ev))
         \<longrightarrow> classify (Message ev) = fst (precedence ! i)"
    using classify_first_match by blast
  show "(\<forall>i<length precedence. \<not> snd (precedence ! i) (Message ev))
         \<longrightarrow> classify (Message ev) = Unknown"
    using classify_no_match by blast
  show "inj type_name" by (rule inj_type_name)
  show "csv_content (handleReceivedMessage e ev w) = csv_content w
       \<or> csv_content (handleReceivedMessage e ev w) =
           csv_content w @ (if csv_content w = [] then csv_Write header_row else [])
           @ csv_Write [sprint_d (csv_nanos e), JID_String (Info_Sender ev),
                        type_name (classify (Message ev)), payload_summary e (Message ev),
                        Format_RFC3339 (Info_Timestamp ev)]"
    using handleReceivedMessage_effect [of e ev w] by (simp split: if_splits)
  show "media_stored e (Message ev) \<and> append_succeeds e (csv_content w) \<longrightarrow>
         csv_content (handleReceivedMessage e ev w) =
           csv_content w @ (if csv_content w = [] then csv_Write header_row else [])
           @ csv_Write [sprint_d (csv_nanos e), JID_String (Info_Sender ev),
                        type_name (classify (Message ev)), payload_summary e (Message ev),
                        Format_RFC3339 (Info_Timestamp ev)]"
    using handleReceivedMessage_effect [of e ev w] by simp
qed

lemma image_and_video_stored: "media_stored calm_env (Message image_and_video_event)"
  by (simp add: media_stored_def media_of_def image_and_video_kind)
     (simp add: image_and_video_event_def no_content_def GetImageMessage_def calm_env_def)

lemma image_and_video_summary:
  "payload_summary calm_env (Message image_and_video_event) =
     ''Caption: hi, Path: media/image/1718000000123456789.jpg''"
  by (simp add: payload_summary_def image_and_video_kind media_path_def kind_extension_def
      calm_nanos)
     (simp add: image_and_video_event_def no_content_def GetImageMessage_def string_value_def)

lemma image_and_video_info:
  "Info_Sender image_and_video_event = alice" "Info_Timestamp image_and_video_event = noon"
  by (simp_all add: image_and_video_event_def)

theorem classifier_witness:
  "snd (precedence ! 2) (Message image_and_video_event)
   \<and> snd (precedence ! 3) (Message image_and_video_event)
   \<and> classify (Message image_and_video_event) = Image
   \<and> csv_content (handleReceivedMessage calm_env image_and_video_event fresh_world) =
       csv_Write header_row
       @ csv_Write [''1718000000223456789'', ''77011234567@s.whatsapp.net'', ''Image'',
                    ''Caption: hi, Path: media/image/1718000000123456789.jpg'',
                    ''2024-06-10T12:00:05Z'']"
proof -
  have p2: "snd (precedence ! 2) (Message image_and_video_event)"
    and p3: "snd (precedence ! 3) (Message image_and_video_event)"
    by (simp_all add: precedence_def image_and_video_event_def no_content_def
        GetImageMessage_def GetVideoMessage_def)
  have earlier: "\<forall>j<2. \<not> snd (precedence ! j) (Message image_and_video_event)"
    by (simp add: less_Suc_eq numeral_2_eq_2 precedence_def image_and_video_event_def
        no_content_def GetConversation_def GetExtendedTextMessage_def string_value_def)
  note c = classifier_assigns_first_matching_kind
    [of image_and_video_event calm_env fresh_world]
  have two: "2 < length precedence" by (simp add: precedence_def)
  from c two p2 earlier have k: "classify (Message image_and_video_event) = fst (precedence ! 2)"
    by blast
  then have k': "classify (Message image_and_video_event) = Image"
    by (simp add: precedence_def)
  from c image_and_video_stored calm_append [of "csv_content fresh_world"]
  have "csv_content (handleReceivedMessage calm_env image_and_video_event fresh_world) =
           csv_content fresh_world
           @ (if csv_content fresh_world = [] then csv_Write header_row else [])
           @ csv_Write [sprint_d (csv_nanos calm_env),
                        JID_String (Info_Sender image_and_video_event),
                        type_name (classify (Message image_and_video_event)),
                        payload_summary calm_env (Message image_and_video_event),
                        Format_RFC3339 (Info_Timestamp image_and_video_event)]"
    by blast
  then have "csv_content (handleReceivedMessage calm_env image_and_video_event fresh_world) =
       csv_Write header_row
       @ csv_Write [''1718000000223456789'', ''77011234567@s.whatsapp.net'', ''Image'',
                    ''Caption: hi, Path: media/image/1718000000123456789.jpg'',
                    ''2024-06-10T12:00:05Z'']"
    by (simp add: fresh_content image_and_video_summary image_and_video_info k' type_name_def
        noon_text alice_text calm_nanos)
  with p2 p3 k' show ?thesis by blast
qed

subsection \<open>Media messages\<close>





text \<open>
  C7, as the program has it. For a message of a media kind whose download and save
  succeed, the payload summary of the appended record is built from the path that the
  Media Store returned and, for three of the four kinds, from a field of the message:
  \<open>Caption: <caption>, Path: <path>\<close> for an image and for a video,
  \<open>FileName: <file name>, Path: <path>\<close> for a document. For an audio message, which
  has neither a caption nor a file name, the summary is the path alone.
\<close>

theorem media_summary_by_kind:
  assumes "is_media (classify (Message ev))"
    and "media_stored e (Message ev)"
    and "append_succeeds e (csv_content w)"
  shows "\<exists>summary.
       csv_content (handleReceivedMessage e ev w) =
         csv_content w @ (if csv_content w = [] then csv_Write header_row else [])
         @ csv_Write [sprint_d (csv_nanos e), JID_String (Info_Sender ev),
                      type_name (classify (Message ev)), summary,
                      Format_RFC3339 (Info_Timestamp ev)]
     \<and> (\<forall>x. classify (Message ev) = Image \<and> GetImageMessage (Message ev) = Some x \<longrightarrow>
           summary = ''Caption: '' @ string_value (image_caption x) @ '', Path: ''
                     @ media_path ''image'' (media_nanos e)
           \<and> (\<forall>dat w'. fst (saveMedia e ''image'' dat w') = Inr (media_path ''image'' (media_nanos e))))
     \<and> (\<forall>x. classify (Message ev) = Video \<and> GetVideoMessage (Message ev) = Some x \<longrightarrow>
           summary = ''Caption: '' @ string_value (video_caption x) @ '', Path: ''
                     @ media_path ''video'' (media_nanos e)
           \<and> (\<forall>dat w'. fst (saveMedia e ''video'' dat w') = Inr (media_path ''video'' (media_nanos e))))
     \<and> (\<forall>x. classify (Message ev) = Document \<and> GetDocumentMessage (Message ev) = Some x \<longrightarrow>
           summary = ''FileName: '' @ string_value (document_fileName x) @ '', Path: ''
                     @ media_path ''document'' (media_nanos e)
           \<and> (\<forall>dat w'. fst (saveMedia e ''document'' dat w') =
                          Inr (media_path ''document'' (media_nanos e))))
     \<and> (classify (Message ev) = Audio \<longrightarrow>
           summary = media_path ''audio'' (media_nanos e)
           \<and> (\<forall>dat w'. fst (saveMedia e ''audio'' dat w') = Inr (media_path ''audio'' (media_nanos e))))"
proof -
  from classify_media [OF assms(1)] obtain d where d: "media_of (Message ev) = Some d" by blast
  with assms(2) have ok: "mkdir_err e = None" "writefile_err e = None"
    by (simp_all add: media_stored_def)
  have saved: "fst (saveMedia e k dat w') = Inr (media_path k (media_nanos e))" for k dat w'
    using ok by (simp add: saveMedia_succeeds)
  from handleReceivedMessage_effect [of e ev w] assms(2,3)
  have "csv_content (handleReceivedMessage e ev w) =
         csv_content w @ (if csv_content w = [] then csv_Write header_row else [])
         @ csv_Write [sprint_d (csv_nanos e), JID_String (Info_Sender ev),
                      type_name (classify (Message ev)), payload_summary e (Message ev),
                      Format_RFC3339 (Info_Timestamp ev)]"
    by simp
  moreover have "\<forall>x. classify (Message ev) = Image \<and> GetImageMessage (Message ev) = Some x \<longrightarrow>
           payload_summary e (Message ev) =
             ''Caption: '' @ string_value (image_caption x) @ '', Path: ''
             @ media_path ''image'' (media_nanos e)
           \<and> (\<forall>dat w'. fst (saveMedia e ''image'' dat w') = Inr (media_path ''image'' (media_nanos e)))"
    using saved by (simp add: payload_summary_def)
  moreover have "\<forall>x. classify (Message ev) = Video \<and> GetVideoMessage (Message ev) = Some x \<longrightarrow>
           payload_summary e (Message ev) =
             ''Caption: '' @ string_value (video_caption x) @ '', Path: ''
             @ media_path ''video'' (media_nanos e)
           \<and> (\<forall>dat w'. fst (saveMedia e ''video'' dat w') = Inr (media_path ''video'' (media_nanos e)))"
    using saved by (simp add: payload_summary_def)
  moreover have "\<forall>x. classify (Message ev) = Document \<and> GetDocumentMessage (Message ev) = Some x \<longrightarrow>
           payload_summary e (Message ev) =
             ''FileName: '' @ string_value (document_fileName x) @ '', Path: ''
             @ media_path ''document'' (media_nanos e)
           \<and> (\<forall>dat w'. fst (saveMedia e ''document'' dat w') =
                          Inr (media_path ''document'' (media_nanos e)))"
    using saved by (simp add: payload_summary_def)
  moreover have "classify (Message ev) = Audio \<longrightarrow>
           payload_summary e (Message ev) = media_path ''audio'' (media_nanos e)
           \<and> (\<forall>dat w'. fst (saveMedia e ''audio'' dat w') = Inr (media_path ''audio'' (media_nanos e)))"
    using saved by (simp add: payload_summary_def)
  ultimately show ?thesis by blast
qed

lemma image_and_video_log:
  "csv_content (handleReceivedMessage calm_env image_and_video_event fresh_world) =
     csv_Write header_row
     @ csv_Write [''1718000000223456789'', ''77011234567@s.whatsapp.net'', ''Image'',
                  ''Caption: hi, Path: media/image/1718000000123456789.jpg'',
                  ''2024-06-10T12:00:05Z'']"
  using handleReceivedMessage_effect [of calm_env image_and_video_event fresh_world]
  by (simp add: image_and_video_stored image_and_video_summary image_and_video_info calm_append
      fresh_content image_and_video_kind type_name_def noon_text alice_text calm_nanos)

theorem media_summary_witness:
  "is_media (classify (Message image_and_video_event))
   \<and> media_stored calm_env (Message image_and_video_event)
   \<and> append_succeeds calm_env (csv_content fresh_world)
   \<and> csv_content (handleReceivedMessage calm_env image_and_video_event fresh_world) =
       csv_Write header_row
       @ csv_Write [''1718000000223456789'', ''77011234567@s.whatsapp.net'', ''Image'',
                    ''Caption: hi, Path: media/image/1718000000123456789.jpg'',
                    ''2024-06-10T12:00:05Z'']
   \<and> fst (saveMedia calm_env ''image'' ''payload'' fresh_world) =
       Inr ''media/image/1718000000123456789.jpg''"
proof -
  have m: "is_media (classify (Message image_and_video_event))"
    by (simp add: is_media_def image_and_video_kind)
  have g: "GetImageMessage (Message image_and_video_event) =
             Some \<lparr>image_caption = Some ''hi'', image_directPath = ''/v/1''\<rparr>"
    by (simp add: image_and_video_event_def no_content_def GetImageMessage_def)
  have p: "media_path ''image'' (media_nanos calm_env) = ''media/image/1718000000123456789.jpg''"
    by (simp add: media_path_def kind_extension_def calm_nanos)
  from media_summary_by_kind [OF m image_and_video_stored calm_append,
      of fresh_world] image_and_video_kind g
  obtain summary where
    "csv_content (handleReceivedMessage calm_env image_and_video_event fresh_world) =
       csv_content fresh_world
       @ (if csv_content fresh_world = [] then csv_Write header_row else [])
       @ csv_Write [sprint_d (csv_nanos calm_env), JID_String (Info_Sender image_and_video_event),
                    type_name (classify (Message image_and_video_event)), summary,
                    Format_RFC3339 (Info_Timestamp image_and_video_event)]"
    and "summary = ''Caption: '' @ string_value (Some ''hi'') @ '', Path: ''
                   @ media_path ''image'' (media_nanos calm_env)"
    and "fst (saveMedia calm_env ''image'' ''payload'' fresh_world) =
           Inr (media_path ''image'' (media_nanos calm_env))"
    by (auto simp del: append.simps)
  with m image_and_video_stored calm_append [of "csv_content fresh_world"] show ?thesis
    by (simp add: p fresh_content image_and_video_info image_and_video_kind type_name_def
        noon_text alice_text calm_nanos string_value_def)
qed

lemma audio_kind: "classify (Message audio_event) = Audio"
  by (simp add: classify_def precedence_def audio_event_def no_content_def
      GetConversation_def GetExtendedTextMessage_def GetImageMessage_def GetVideoMessage_def
      GetDocumentMessage_def GetAudioMessage_def string_value_def)

text \<open>
  The audio case: the text column of the record that the handler appends for an audio
  message is the path under which the Media Store saved the payload, and nothing else.
\<close>

theorem audio_summary_is_the_bare_path:
  "csv_content (handleReceivedMessage calm_env audio_event fresh_world) =
     csv_Write header_row
     @ csv_Write [''1718000000223456789'', ''77011234567@s.whatsapp.net'', ''Audio'',
                  ''media/audio/1718000000123456789.ogg'', ''2024-06-10T12:00:05Z'']
   \<and> fst (saveMedia calm_env ''audio'' ''payload'' fresh_world) =
       Inr ''media/audio/1718000000123456789.ogg''"
proof -
  have s: "media_stored calm_env (Message audio_event)"
    by (simp add: media_stored_def media_of_def audio_kind)
       (simp add: audio_event_def no_content_def GetAudioMessage_def calm_env_def)
  have p: "media_path ''audio'' (media_nanos calm_env) = ''media/audio/1718000000123456789.ogg''"
    by (simp add: media_path_def kind_extension_def calm_nanos)
  have i: "Info_Sender audio_event = alice" "Info_Timestamp audio_event = noon"
    by (simp_all add: audio_event_def)
  have c: "mkdir_err calm_env = None" "writefile_err calm_env = None"
    by (simp_all add: calm_env_def)
  from handleReceivedMessage_effect [of calm_env audio_event fresh_world]
  have "csv_content (handleReceivedMessage calm_env audio_event fresh_world) =
     csv_Write header_row
     @ csv_Write [''1718000000223456789'', ''77011234567@s.whatsapp.net'', ''Audio'',
                  ''media/audio/1718000000123456789.ogg'', ''2024-06-10T12:00:05Z'']"
    by (simp add: s p i calm_append fresh_content audio_kind type_name_def payload_summary_def
        noon_text alice_text calm_nanos)
  moreover from saveMedia_succeeds [OF c, of "''audio''" "''payload''" fresh_world] p
  have "fst (saveMedia calm_env ''audio'' ''payload'' fresh_world) =
       Inr ''media/audio/1718000000123456789.ogg''"
    by simp
  ultimately show ?thesis by blast
qed

subsection \<open>Sender and time stamp of a record\<close>

text \<open>
  C8, as the program has it. Whenever the handler appends a record for an inbound
  message, the time stamp field of the record is the RFC 3339 text of the message's time
  stamp, which is never empty, and the sender field is the string form of the sender
  identifier of the message. The handler does not look at that string: it is empty
  exactly when the identifier has no user part, no server part, and agent and device
  number 0.
\<close>

theorem record_sender_and_timestamp:
  assumes "csv_content (handleReceivedMessage e ev w) \<noteq> csv_content w"
  shows "\<exists>ty summary.
       csv_content (handleReceivedMessage e ev w) =
         csv_content w @ (if csv_content w = [] then csv_Write header_row else [])
         @ csv_Write [sprint_d (csv_nanos e), JID_String (Info_Sender ev), ty, summary,
                      Format_RFC3339 (Info_Timestamp ev)]
     \<and> Format_RFC3339 (Info_Timestamp ev) \<noteq> []
     \<and> (JID_String (Info_Sender ev) = [] \<longleftrightarrow>
          User (Info_Sender ev) = [] \<and> Server (Info_Sender ev) = []
          \<and> RawAgent (Info_Sender ev) = 0 \<and> Device (Info_Sender ev) = 0)"
proof -
  from handleReceivedMessage_effect [of e ev w] assms
  have "csv_content (handleReceivedMessage e ev w) =
         csv_content w @ (if csv_content w = [] then csv_Write header_row else [])
         @ csv_Write [sprint_d (csv_nanos e), JID_String (Info_Sender ev),
                      type_name (classify (Message ev)), payload_summary e (Message ev),
                      Format_RFC3339 (Info_Timestamp ev)]"
    by (simp split: if_splits)
  moreover have "Format_RFC3339 (Info_Timestamp ev) \<noteq> []"
    by (rule Format_RFC3339_nonempty)
  moreover have "JID_String (Info_Sender ev) = [] \<longleftrightarrow>
          User (Info_Sender ev) = [] \<and> Server (Info_Sender ev) = []
          \<and> RawAgent (Info_Sender ev) = 0 \<and> Device (Info_Sender ev) = 0"
    by (auto simp: JID_String_empty_iff)
  ultimately show ?thesis by blast
qed

lemma csv_Write_nonempty: "csv_Write row \<noteq> []"
  by (simp add: csv_Write_def)

theorem record_sender_and_timestamp_witness:
  "csv_content (handleReceivedMessage calm_env image_and_video_event fresh_world)
     \<noteq> csv_content fresh_world
   \<and> Format_RFC3339 (Info_Timestamp image_and_video_event) = ''2024-06-10T12:00:05Z''
   \<and> JID_String (Info_Sender image_and_video_event) = ''77011234567@s.whatsapp.net''
   \<and> User (Info_Sender image_and_video_event) \<noteq> []"
proof -
  have h: "csv_content (handleReceivedMessage calm_env image_and_video_event fresh_world)
             \<noteq> csv_content fresh_world"
    by (simp add: image_and_video_log fresh_content csv_Write_nonempty)
  from record_sender_and_timestamp [OF h]
  have "Format_RFC3339 (Info_Timestamp image_and_video_event) \<noteq> []"
    and "JID_String (Info_Sender image_and_video_event) = [] \<longleftrightarrow>
          User (Info_Sender image_and_video_event) = []
          \<and> Server (Info_Sender image_and_video_event) = []
          \<and> RawAgent (Info_Sender image_and_video_event) = 0
          \<and> Device (Info_Sender image_and_video_event) = 0"
    by blast+
  moreover have "User (Info_Sender image_and_video_event) \<noteq> []"
    by (simp add: image_and_video_info alice_def NewJID_def)
  ultimately show ?thesis
    using h by (simp add: image_and_video_info noon_text alice_text)
qed

text \<open>
  The sender identifier of an event can be the zero value of its struct; its string form
  is empty, and the record is written all the same, with an empty sender field.
\<close>

theorem record_with_empty_sender:
  "csv_content (handleReceivedMessage calm_env unnamed_sender_event fresh_world) =
     csv_Write header_row
     @ csv_Write [''1718000000223456789'', '''', ''Conversation'', ''hi'',
                  ''2024-06-10T12:00:05Z'']"
proof -
  have k: "classify (Message unnamed_sender_event) = Text"
    by (simp add: classify_def precedence_def unnamed_sender_event_def no_content_def
        GetConversation_def string_value_def)
  have s: "media_stored calm_env (Message unnamed_sender_event)"
    by (simp add: media_stored_def media_of_def k)
  have p: "payload_summary calm_env (Message unnamed_sender_event) = ''hi''"
    by (simp add: payload_summary_def k)
       (simp add: unnamed_sender_event_def no_content_def GetConversation_def string_value_def)
  have i: "JID_String (Info_Sender unnamed_sender_event) = ''''"
    "Info_Timestamp unnamed_sender_event = noon"
    by (simp_all add: unnamed_sender_event_def JID_String_def)
  from handleReceivedMessage_effect [of calm_env unnamed_sender_event fresh_world]
  show ?thesis
    by (simp add: s p i k calm_append fresh_content type_name_def noon_text calm_nanos)
qed

subsection \<open>The reader on the output of the writer\<close>

lemma readLine_NL: "readLine (NL # T) = Some ([NL], T)"
  by (simp add: readLine_def)

lemma readLine_CRNL: "readLine (CR # NL # T) = Some ([NL], T)"
  by (simp add: readLine_def)

lemma readLine_Cons:
  assumes "c \<noteq> NL" and "NL \<in> set T" and "\<not> (c = CR \<and> hd T = NL)"
    and "readLine T = Some (l, r)"
  shows "readLine (c # T) = Some (c # l, r)"
proof -
  let ?pre = "takeWhile (\<lambda>c. c \<noteq> NL) T" and ?post = "dropWhile (\<lambda>c. c \<noteq> NL) T"
  from assms(2) have post: "?post \<noteq> []" by (auto simp: dropWhile_eq_Nil_conv)
  from assms(2) have T: "T \<noteq> []" by auto
  show ?thesis
  proof (cases "?pre = []")
    case True
    then have "hd T = NL" using T by (cases T) (auto split: if_splits)
    with assms(3) have "c \<noteq> CR" by blast
    with assms(1,2,4) T True show ?thesis
      by (auto simp add: readLine_def Let_def split: if_splits)
  next
    case False
    with assms(1,2,4) T show ?thesis
      by (auto simp add: readLine_def Let_def split: if_splits)
  qed
qed

lemma readLine_NL_mem:
  assumes "NL \<in> set T"
  shows "\<exists>l r. readLine T = Some (l, r) \<and> l \<noteq> [] \<and> last l = NL"
proof -
  from assms have "dropWhile (\<lambda>c. c \<noteq> NL) T \<noteq> []" by (auto simp: dropWhile_eq_Nil_conv)
  moreover from assms have "T \<noteq> []" by auto
  ultimately show ?thesis by (auto simp add: readLine_def Let_def)
qed

lemma pq_char:
  assumes "c \<noteq> QUOTE" and "c \<noteq> NL" and "NL \<in> set T" and "\<not> (c = CR \<and> hd T = NL)"
  shows "pq acc (c # T) = pq (acc @ [c]) T"
proof -
  from readLine_NL_mem [OF assms(3)] obtain l r
    where rd: "readLine T = Some (l, r)" and l: "l \<noteq> []" by blast
  from readLine_Cons [OF assms(2,3,4) rd] have rd': "readLine (c # T) = Some (c # l, r)" .
  have "parseQuoted acc (c # l) r = parseQuoted (acc @ [c]) l r"
    using assms(1) l
    by (simp add: parseQuoted.simps [of acc "c # l" r] parseQuoted.simps [of "acc @ [c]" l r]
        Let_def split: option.splits)
  with rd rd' show ?thesis by (simp add: pq_def)
qed

lemma pq_quote:
  assumes "NL \<in> set T"
  shows "pq acc (QUOTE # QUOTE # T) = pq (acc @ [QUOTE]) T"
proof -
  from readLine_NL_mem [OF assms] obtain l r
    where rd: "readLine T = Some (l, r)" and l: "l \<noteq> []" by blast
  have "readLine (QUOTE # T) = Some (QUOTE # l, r)"
    by (rule readLine_Cons) (use assms rd in simp_all)
  then have rd': "readLine (QUOTE # QUOTE # T) = Some (QUOTE # QUOTE # l, r)"
    by (intro readLine_Cons [where T = "QUOTE # T"]) (use assms in simp_all)
  have "parseQuoted acc (QUOTE # QUOTE # l) r = parseQuoted (acc @ [QUOTE]) l r"
    by (simp add: parseQuoted.simps [of acc "QUOTE # QUOTE # l" r] Let_def)
  with rd rd' show ?thesis by (simp add: pq_def)
qed

lemma pq_newline:
  assumes "T \<noteq> []"
  shows "pq acc (NL # T) = pq (acc @ [NL]) T" and "pq acc (CR # NL # T) = pq (acc @ [NL]) T"
proof -
  from assms obtain l r where rd: "readLine T = Some (l, r)"
    by (cases "readLine T") (auto simp: readLine_def Let_def split: if_splits)
  have "parseQuoted acc [NL] T = parseQuoted (acc @ [NL]) l r"
    using rd by (simp add: parseQuoted.simps [of acc "[NL]" T] Let_def)
  with rd show "pq acc (NL # T) = pq (acc @ [NL]) T"
    and "pq acc (CR # NL # T) = pq (acc @ [NL]) T"
    by (simp_all add: pq_def readLine_NL readLine_CRNL)
qed

lemma pq_end_comma:
  assumes "NL \<in> set T"
  shows "pq acc (QUOTE # COMMA # T) =
           (case pf T of Inl err \<Rightarrow> Inl err | Inr (flds, r) \<Rightarrow> Inr (acc # flds, r))"
proof -
  from readLine_NL_mem [OF assms] obtain l r
    where rd: "readLine T = Some (l, r)" and l: "l \<noteq> []" by blast
  have "readLine (COMMA # T) = Some (COMMA # l, r)"
    by (rule readLine_Cons) (use assms rd in simp_all)
  then have rd': "readLine (QUOTE # COMMA # T) = Some (QUOTE # COMMA # l, r)"
    by (intro readLine_Cons [where T = "COMMA # T"]) (use assms in simp_all)
  have "parseQuoted acc (QUOTE # COMMA # l) r =
          (case parseFields l r of Inl err \<Rightarrow> Inl err | Inr (flds, r) \<Rightarrow> Inr (acc # flds, r))"
    by (simp add: parseQuoted.simps [of acc "QUOTE # COMMA # l" r] Let_def)
  with rd rd' show ?thesis by (simp add: pq_def pf_def)
qed

lemma pq_end_line: "pq acc (QUOTE # NL # R) = Inr ([acc], R)"
proof -
  have "readLine (QUOTE # NL # R) = Some ([QUOTE, NL], R)"
    by (simp add: readLine_def)
  moreover have "parseQuoted acc [QUOTE, NL] R = Inr ([acc], R)"
    by (simp add: parseQuoted.simps [of acc "[QUOTE, NL]" R] Let_def lengthNL_def)
  ultimately show ?thesis by (simp add: pq_def)
qed

lemma pq_body:
  assumes K: "NL \<in> set K"
  shows "pq acc (escapeField f @ QUOTE # K) = pq (acc @ crlf_to_lf f) (QUOTE # K)"
proof (induction f arbitrary: acc rule: crlf_to_lf.induct)
  case (3 c d cs acc)
  let ?T = "escapeField (d # cs) @ QUOTE # K"
  have nl: "NL \<in> set ?T" using K by simp
  have hd: "hd ?T = NL \<longleftrightarrow> d = NL" by simp
  show ?case
  proof (cases "c = CR \<and> d = NL")
    case True
    have "pq acc (escapeField (c # d # cs) @ QUOTE # K) =
            pq acc (CR # NL # (escapeField cs @ QUOTE # K))"
      using True by simp
    also have "\<dots> = pq (acc @ [NL]) (escapeField cs @ QUOTE # K)"
      by (rule pq_newline(2)) simp
    also have "\<dots> = pq ((acc @ [NL]) @ crlf_to_lf cs) (QUOTE # K)"
      using "3.IH"(1) [OF True] .
    finally show ?thesis using True by simp
  next
    case False
    note IH = "3.IH"(2) [OF False]
    from False have eq: "crlf_to_lf (c # d # cs) = c # crlf_to_lf (d # cs)" by auto
    consider (quote) "c = QUOTE" | (newline) "c = NL" | (other) "c \<noteq> QUOTE" "c \<noteq> NL"
      by blast
    then have "pq acc (escapeField (c # d # cs) @ QUOTE # K) = pq (acc @ [c]) ?T"
    proof cases
      case quote
      then show ?thesis using pq_quote [OF nl, of acc] by simp
    next
      case newline
      then show ?thesis using pq_newline(1) [of ?T acc] by simp
    next
      case other
      from False hd have "\<not> (c = CR \<and> hd ?T = NL)" by blast
      from pq_char [OF other nl this, of acc] other show ?thesis by simp
    qed
    also have "\<dots> = pq ((acc @ [c]) @ crlf_to_lf (d # cs)) (QUOTE # K)"
      by (rule IH)
    finally show ?thesis
      using eq by (simp del: crlf_to_lf.simps escapeField.simps)
  qed
next
  case (1 acc)
  show ?case by simp
next
  case (2 v acc)
  let ?T = "QUOTE # K"
  have nl: "NL \<in> set ?T" using K by simp
  consider (quote) "v = QUOTE" | (newline) "v = NL" | (other) "v \<noteq> QUOTE" "v \<noteq> NL"
    by blast
  then show ?case
  proof cases
    case quote
    then show ?thesis using pq_quote [OF nl, of acc] by simp
  next
    case newline
    then show ?thesis using pq_newline(1) [of ?T acc] by simp
  next
    case other
    have "\<not> (v = CR \<and> hd ?T = NL)" by simp
    from pq_char [OF other nl this, of acc] other show ?thesis by simp
  qed
qed

lemma crlf_to_lf_plain: "CR \<notin> set f \<Longrightarrow> crlf_to_lf f = f"
  by (induction f rule: crlf_to_lf.induct) auto

lemma plain_field:
  assumes "\<not> fieldNeedsQuotes f"
  shows "NL \<notin> set f" and "CR \<notin> set f" and "QUOTE \<notin> set f" and "COMMA \<notin> set f"
  using assms by (auto simp: fieldNeedsQuotes_def list_ex_iff split: if_splits)

lemma readLine_plain_prefix:
  assumes "NL \<notin> set f" and "CR \<notin> set f" and "NL \<in> set T" and "readLine T = Some (l, r)"
  shows "readLine (f @ T) = Some (f @ l, r)"
  using assms
proof (induction f)
  case Nil
  then show ?case by simp
next
  case (Cons c f)
  then have "readLine (f @ T) = Some (f @ l, r)" by simp
  moreover from Cons.prems have "c \<noteq> NL" "NL \<in> set (f @ T)" "\<not> (c = CR \<and> hd (f @ T) = NL)"
    by auto
  ultimately have "readLine (c # (f @ T)) = Some (c # (f @ l), r)"
    by (intro readLine_Cons)
  then show ?case by simp
qed

lemma pf_plain_comma:
  assumes "\<not> fieldNeedsQuotes f" and "NL \<in> set T"
  shows "pf (f @ COMMA # T) =
           (case pf T of Inl err \<Rightarrow> Inl err | Inr (flds, r) \<Rightarrow> Inr (f # flds, r))"
proof -
  note p = plain_field [OF assms(1)]
  from readLine_NL_mem [OF assms(2)] obtain l r
    where rd: "readLine T = Some (l, r)" by blast
  have "readLine (COMMA # T) = Some (COMMA # l, r)"
    by (rule readLine_Cons) (use assms rd in simp_all)
  with p assms(2) have rd': "readLine (f @ COMMA # T) = Some (f @ COMMA # l, r)"
    by (intro readLine_plain_prefix) simp_all
  have h: "f @ COMMA # l \<noteq> [] \<and> hd (f @ COMMA # l) \<noteq> QUOTE"
    using p(3) by (cases f) auto
  from p(4) have nc: "x \<noteq> COMMA" if "x \<in> set f" for x using that by auto
  have d: "dropWhile (\<lambda>c. c \<noteq> COMMA) (f @ COMMA # l) = COMMA # l"
    using dropWhile_append2 [of f "\<lambda>c. c \<noteq> COMMA" "COMMA # l"] nc by simp
  have t: "takeWhile (\<lambda>c. c \<noteq> COMMA) (f @ COMMA # l) = f"
    using takeWhile_append2 [of f "\<lambda>c. c \<noteq> COMMA" "COMMA # l"] nc by simp
  have "parseFields (f @ COMMA # l) r =
          (case parseFields l r of Inl err \<Rightarrow> Inl err | Inr (flds, r) \<Rightarrow> Inr (f # flds, r))"
    using h p(3)
    by (simp add: parseFields.simps [of "f @ COMMA # l" r] d t Let_def split: sum.splits)
  with rd rd' show ?thesis by (simp add: pf_def)
qed

lemma pf_plain_end:
  assumes "\<not> fieldNeedsQuotes f"
  shows "pf (f @ NL # R) = Inr ([f], R)"
proof -
  note p = plain_field [OF assms(1)]
  have "readLine (NL # R) = Some ([NL], R)" by (rule readLine_NL)
  with p have rd': "readLine (f @ NL # R) = Some (f @ [NL], R)"
    by (intro readLine_plain_prefix) simp_all
  have h: "hd (f @ [NL]) \<noteq> QUOTE"
    using p(3) by (cases f) auto
  from p(4) have nc: "x \<noteq> COMMA" if "x \<in> set f" for x using that by auto
  have d: "dropWhile (\<lambda>c. c \<noteq> COMMA) (f @ [NL]) = []"
    using dropWhile_append2 [of f "\<lambda>c. c \<noteq> COMMA" "[NL]"] nc by simp
  have "parseFields (f @ [NL]) R = Inr ([f], R)"
    using h p(3) by (simp add: parseFields.simps [of "f @ [NL]" R] d Let_def lengthNL_def)
  with rd' show ?thesis by (simp add: pf_def)
qed

lemma pf_quoted:
  assumes "NL \<in> set T"
  shows "pf (QUOTE # T) = pq [] T"
proof -
  from readLine_NL_mem [OF assms] obtain l r
    where rd: "readLine T = Some (l, r)" by blast
  have rd': "readLine (QUOTE # T) = Some (QUOTE # l, r)"
    by (rule readLine_Cons) (use assms rd in simp_all)
  have "parseFields (QUOTE # l) r = parseQuoted [] l r"
    by (simp add: parseFields.simps [of "QUOTE # l" r])
  with rd rd' show ?thesis by (simp add: pf_def pq_def)
qed

lemma pf_record:
  "flds \<noteq> [] \<Longrightarrow> pf (writeFields flds @ NL # R) = Inr (map crlf_to_lf flds, R)"
proof (induction flds rule: writeFields.induct)
  case 1
  then show ?case by simp
next
  case (2 field)
  show ?case
  proof (cases "fieldNeedsQuotes field")
    case False
    with pf_plain_end [OF False, of R] plain_field(2) [OF False] show ?thesis
      by (simp add: writeField_def crlf_to_lf_plain)
  next
    case True
    have "pf (writeFields [field] @ NL # R) = pf (QUOTE # (escapeField field @ QUOTE # NL # R))"
      using True by (simp add: writeField_def)
    also have "\<dots> = pq [] (escapeField field @ QUOTE # NL # R)"
      by (rule pf_quoted) simp
    also have "\<dots> = pq ([] @ crlf_to_lf field) (QUOTE # NL # R)"
      by (rule pq_body) simp
    also have "\<dots> = Inr ([crlf_to_lf field], R)"
      by (simp add: pq_end_line)
    finally show ?thesis by simp
  qed
next
  case (3 field v va)
  let ?T = "writeFields (v # va) @ NL # R"
  have nl: "NL \<in> set ?T" by simp
  have IH: "pf ?T = Inr (map crlf_to_lf (v # va), R)"
    using "3.IH" by simp
  show ?case
  proof (cases "fieldNeedsQuotes field")
    case False
    from False pf_plain_comma [OF False nl] IH plain_field(2) [OF False] show ?thesis
      by (simp add: writeField_def crlf_to_lf_plain)
  next
    case True
    have "pf (writeFields (field # v # va) @ NL # R) =
            pf (QUOTE # (escapeField field @ QUOTE # COMMA # ?T))"
      using True by (simp add: writeField_def)
    also have "\<dots> = pq [] (escapeField field @ QUOTE # COMMA # ?T)"
      by (rule pf_quoted) simp
    also have "\<dots> = pq ([] @ crlf_to_lf field) (QUOTE # COMMA # ?T)"
      by (rule pq_body) simp
    also have "\<dots> = Inr (crlf_to_lf field # map crlf_to_lf (v # va), R)"
      using pq_end_comma [OF nl, of "crlf_to_lf field"] IH by simp
    finally show ?thesis by simp
  qed
qed

lemma writeFields_hd:
  assumes "writeFields flds \<noteq> []"
  shows "hd (writeFields flds) \<noteq> NL \<and> hd (writeFields flds) \<noteq> CR"
proof -
  have w: "writeField f \<noteq> [] \<Longrightarrow> hd (writeField f) \<noteq> NL \<and> hd (writeField f) \<noteq> CR" for f
  proof (cases "fieldNeedsQuotes f")
    case True
    then show ?thesis by (simp add: writeField_def)
  next
    case False
    assume "writeField f \<noteq> []"
    with False have "f \<noteq> []" by (simp add: writeField_def)
    with plain_field(1,2) [OF False] False show ?thesis
      by (cases f) (auto simp: writeField_def)
  qed
  from assms show ?thesis
  proof (induction flds rule: writeFields.induct)
    case 1
    then show ?case by simp
  next
    case (2 field)
    then show ?case using w [of field] by simp
  next
    case (3 field v va)
    show ?case
    proof (cases "writeField field = []")
      case True
      then show ?thesis by simp
    next
      case False
      with w [OF False] show ?thesis by simp
    qed
  qed
qed

lemma readRecord_record:
  assumes "writeFields flds \<noteq> []"
  shows "readRecord (csv_Write flds @ R) = Some (Inr (map crlf_to_lf flds, R))"
proof -
  let ?T = "csv_Write flds @ R"
  from assms have ne: "flds \<noteq> []" by auto
  from assms obtain c T' where T: "?T = c # T'" and c: "c \<noteq> NL" "c \<noteq> CR"
    and nl: "NL \<in> set T'"
    using writeFields_hd [OF assms]
    by (cases "writeFields flds") (auto simp: csv_Write_def)
  from readLine_NL_mem [OF nl] obtain l r where rd: "readLine T' = Some (l, r)" and l: "l \<noteq> []"
    by blast
  from readLine_Cons [OF c(1) nl _ rd] c(2) have rd': "readLine ?T = Some (c # l, r)"
    unfolding T by blast
  have len: "length (c # l) \<noteq> lengthNL (c # l)"
    using l by (cases l) (auto simp: lengthNL_def)
  from rd' len have "readRecord ?T = Some (parseFields (c # l) r)"
    by (subst readRecord.simps) simp
  also from rd' have "parseFields (c # l) r = pf ?T" by (simp add: pf_def)
  also have "pf ?T = Inr (map crlf_to_lf flds, R)"
    using pf_record [OF ne, of R] by (simp add: csv_Write_def)
  finally show ?thesis .
qed

lemma writeFields_nonempty: "2 \<le> length flds \<Longrightarrow> writeFields flds \<noteq> []"
  by (induction flds rule: writeFields.induct) auto

lemma readRecord_end: "readRecord [] = None"
  by (subst readRecord.simps) (simp add: readLine_def)

lemma readRecords_rows:
  assumes "\<forall>row \<in> set rows. length row = n" and "2 \<le> n" and "fpr = 0 \<or> fpr = n"
  shows "readRecords fpr (concat (map csv_Write rows)) = Inr (map (map crlf_to_lf) rows)"
  using assms
proof (induction rows arbitrary: fpr)
  case Nil
  show ?case by (subst readRecords.simps) (simp add: readRecord_end)
next
  case (Cons row rows)
  from Cons.prems have len: "length row = n" and n: "2 \<le> n" by auto
  then have "writeFields row \<noteq> []" by (intro writeFields_nonempty) simp
  from readRecord_record [OF this, of "concat (map csv_Write rows)"]
  have rr: "readRecord (csv_Write row @ concat (map csv_Write rows)) =
              Some (Inr (map crlf_to_lf row, concat (map csv_Write rows)))" .
  have IH: "readRecords n (concat (map csv_Write rows)) = Inr (map (map crlf_to_lf) rows)"
    using Cons.IH [of n] Cons.prems by simp
  from Cons.prems(3) len n IH show ?case
    by (subst readRecords.simps) (auto simp: rr)
qed

lemma ReadAll_of_written:
  assumes "\<forall>row \<in> set rows. length row = n" and "2 \<le> n"
  shows "ReadAll (concat (map csv_Write rows)) = Inr (map (map crlf_to_lf) rows)"
  using readRecords_rows [OF assms, of 0] by (simp add: ReadAll_def)


end
